theory Spec2Isabelle
  imports
    Main
    "HOL-Library.Char_ord"
    "HOL-Library.List_Lexorder"
    "HOL-Library.Multiset"
begin

section \<open>Filey: a shallow embedding of \<open>src/filey.py\<close>\<close>

text \<open>
  The development follows the source top-down: Python values and their errors, the
  scan result (\<open>Worker.run\<close>), the list widget's state (\<open>Filey\<close>) with
  \<open>load_path\<close>, the history buttons of \<open>FileyWindow\<close>, the search box, the paste
  collision policy, the file-operation handlers and the session settings.

  A Python \<open>str\<close> is modelled as a \<open>string\<close>: the list of its code points, each
  below 256. On these, \<open>str_lower\<close> is \<open>str.lower\<close>, \<open>py_isspace\<close> is
  \<open>str.isspace\<close>, and the order of strings is the one Python compares them by.
\<close>

subsection \<open>Python values\<close>

datatype py_error = IndexError | TypeError | AttributeError | KeyError

text \<open>What \<open>json.load\<close> returns (numbers are integers here).\<close>

datatype pyval =
    PyNone
  | PyBool bool
  | PyInt int
  | PyStr string
  | PyList "pyval list"
  | PyDict "(string \<times> pyval) list"

text \<open>\<open>xs[:k]\<close>: a negative \<open>k\<close> counts from the end.\<close>

definition py_slice_upto :: "'a list \<Rightarrow> int \<Rightarrow> 'a list" where
  "py_slice_upto xs k =
     (if k < 0 then take (nat (int (length xs) + k)) xs else take (nat k) xs)"

text \<open>
  \<open>xs[i]\<close>: an index from 0 reads from the front, one from \<open>-len(xs)\<close> to \<open>-1\<close>
  reads from the back, any other raises \<open>IndexError\<close>.
\<close>

definition py_getitem :: "'a list \<Rightarrow> int \<Rightarrow> py_error + 'a" where
  "py_getitem xs i =
     (if 0 \<le> i \<and> i < int (length xs) then Inr (xs ! nat i)
      else if i < 0 \<and> - int (length xs) \<le> i then Inr (xs ! nat (int (length xs) + i))
      else Inl IndexError)"

subsection \<open>Strings\<close>

text \<open>
  \<open>str.lower\<close> of one code point below 256: the letters A to Z and the letters
  0xC0 to 0xDE, the multiplication sign 0xD7 left out, move up by 32; every other code
  point is its own lower case.
\<close>

definition chr_lower :: "char \<Rightarrow> char" where
  "chr_lower c =
     (case map_of
             (zip (''ABCDEFGHIJKLMNOPQRSTUVWXYZ''
                   @ [CHR 0xC0, CHR 0xC1, CHR 0xC2, CHR 0xC3, CHR 0xC4, CHR 0xC5, CHR 0xC6,
                      CHR 0xC7, CHR 0xC8, CHR 0xC9, CHR 0xCA, CHR 0xCB, CHR 0xCC, CHR 0xCD,
                      CHR 0xCE, CHR 0xCF, CHR 0xD0, CHR 0xD1, CHR 0xD2, CHR 0xD3, CHR 0xD4,
                      CHR 0xD5, CHR 0xD6, CHR 0xD8, CHR 0xD9, CHR 0xDA, CHR 0xDB, CHR 0xDC,
                      CHR 0xDD, CHR 0xDE])
                  (''abcdefghijklmnopqrstuvwxyz''
                   @ [CHR 0xE0, CHR 0xE1, CHR 0xE2, CHR 0xE3, CHR 0xE4, CHR 0xE5, CHR 0xE6,
                      CHR 0xE7, CHR 0xE8, CHR 0xE9, CHR 0xEA, CHR 0xEB, CHR 0xEC, CHR 0xED,
                      CHR 0xEE, CHR 0xEF, CHR 0xF0, CHR 0xF1, CHR 0xF2, CHR 0xF3, CHR 0xF4,
                      CHR 0xF5, CHR 0xF6, CHR 0xF8, CHR 0xF9, CHR 0xFA, CHR 0xFB, CHR 0xFC,
                      CHR 0xFD, CHR 0xFE])) c of
        Some l \<Rightarrow> l
      | None \<Rightarrow> c)"

definition str_lower :: "string \<Rightarrow> string" where
  "str_lower s = map chr_lower s"

text \<open>
  \<open>str.isspace\<close> of one code point below 256: tab, line feed, vertical tab, form
  feed, carriage return, the four separators 0x1C to 0x1F, the space, next line 0x85
  and the no-break space 0xA0. \<open>str.strip()\<close> removes these.
\<close>

definition py_isspace :: "char \<Rightarrow> bool" where
  "py_isspace c =
     (c \<in> set [CHR 0x09, CHR 0x0A, CHR 0x0B, CHR 0x0C, CHR 0x0D,
               CHR 0x1C, CHR 0x1D, CHR 0x1E, CHR 0x1F, CHR '' '', CHR 0x85, CHR 0xA0])"

text \<open>\<open>str.strip()\<close>\<close>

definition str_strip :: "string \<Rightarrow> string" where
  "str_strip s = rev (dropWhile py_isspace (rev (dropWhile py_isspace s)))"

text \<open>\<open>sub in s\<close> on strings: \<open>sub\<close> occurs in \<open>s\<close> as a contiguous block.\<close>

fun str_in :: "string \<Rightarrow> string \<Rightarrow> bool" where
  "str_in sub [] = (sub = [])"
| "str_in sub (c # cs) = (take (length sub) (c # cs) = sub \<or> str_in sub cs)"

text \<open>\<open>str(n)\<close> of a natural number, as the f-strings print it.\<close>

fun str_nat :: "nat \<Rightarrow> string" where
  "str_nat n =
     (if n < 10 then [''0123456789'' ! n]
      else str_nat (n div 10) @ [''0123456789'' ! (n mod 10)])"

declare str_nat.simps [simp del]

text \<open>\<open>s.rfind(c)\<close>: the last index of \<open>c\<close> in \<open>s\<close>, or \<open>-1\<close>.\<close>

fun rfind_from :: "char \<Rightarrow> string \<Rightarrow> int \<Rightarrow> int \<Rightarrow> int" where
  "rfind_from c [] i found = found"
| "rfind_from c (x # xs) i found = rfind_from c xs (i + 1) (if x = c then i else found)"

definition rfind :: "string \<Rightarrow> char \<Rightarrow> int" where
  "rfind s c = rfind_from c s 0 (- 1)"

subsection \<open>Paths, as \<open>posixpath\<close> computes them\<close>

text \<open>\<open>os.path.join(a, b)\<close>\<close>

definition path_join :: "string \<Rightarrow> string \<Rightarrow> string" where
  "path_join a b =
     (if take 1 b = ''/'' then b
      else if a = [] \<or> last a = CHR ''/'' then a @ b
      else a @ ''/'' @ b)"

text \<open>\<open>os.path.basename(p)\<close>: what follows the last slash.\<close>

definition basename :: "string \<Rightarrow> string" where
  "basename p = drop (nat (rfind p CHR ''/'' + 1)) p"

text \<open>
  \<open>os.path.dirname(p)\<close>: what precedes the last slash, without its trailing slashes
  unless it consists of slashes only.
\<close>

definition dirname :: "string \<Rightarrow> string" where
  "dirname p =
     (let head = take (nat (rfind p CHR ''/'' + 1)) p
      in if head \<noteq> [] \<and> head \<noteq> replicate (length head) CHR ''/''
         then rev (dropWhile (\<lambda>c. c = CHR ''/'') (rev head))
         else head)"

text \<open>
  \<open>os.path.splitext(p)\<close>: the extension starts at the last dot of the last
  component, unless only dots precede it there.
\<close>

definition splitext :: "string \<Rightarrow> string \<times> string" where
  "splitext p =
     (let sepIndex = rfind p CHR ''/''; dotIndex = rfind p CHR ''.''
      in if dotIndex > sepIndex
            \<and> list_ex (\<lambda>c. c \<noteq> CHR ''.'') (drop (nat (sepIndex + 1)) (take (nat dotIndex) p))
         then (take (nat dotIndex) p, drop (nat dotIndex) p)
         else (p, []))"

subsection \<open>The file system, as the \<open>os\<close> calls answer\<close>

text \<open>
  What the read-only calls return during a scan or a handler, each when it is made:
  \<open>os.listdir\<close> (\<open>None\<close> when it raises), \<open>os.path.isdir\<close>, \<open>os.path.isfile\<close>,
  \<open>os.path.getsize\<close> (\<open>None\<close> when it raises), \<open>os.path.exists\<close> and
  \<open>os.path.abspath\<close>. A scan classifies every name before it reads the first size,
  so \<open>getsize\<close> may raise on a path that \<open>isfile\<close> accepted: the file has gone
  since.
\<close>

record fsys =
  listdir :: "string \<Rightarrow> string list option"
  isdir :: "string \<Rightarrow> bool"
  isfile :: "string \<Rightarrow> bool"
  getsize :: "string \<Rightarrow> nat option"
  exists :: "string \<Rightarrow> bool"
  abspath :: "string \<Rightarrow> string"

text \<open>
  \<open>os.path.isdir\<close>, \<open>os.path.isfile\<close>, \<open>os.path.exists\<close> and \<open>os.path.getsize\<close> all
  call \<open>os.stat\<close>. On a path where that raises, the first three return \<open>False\<close> and
  \<open>getsize\<close> raises.
\<close>

definition stat_fails :: "fsys \<Rightarrow> string \<Rightarrow> bool" where
  "stat_fails fs p =
     (\<not> isdir fs p \<and> \<not> isfile fs p \<and> \<not> exists fs p \<and> getsize fs p = None)"

text \<open>The calls that change the file system.\<close>

datatype os_call =
    Mkdir string
  | CreateFile string
  | Rmtree string
  | Remove string
  | Rename string string
  | Copytree string string
  | Copy2 string string
  | Move string string

text \<open>
  What a handler does besides changing the widget: a call that changes the file
  system, or a message box (its title and text).
\<close>

datatype effect =
    Os os_call
  | Information string string
  | Warning string string

subsection \<open>Entries and the list widget\<close>

text \<open>One dictionary of the list that \<open>Worker.run\<close> emits.\<close>

record entry =
  name :: string
  full_path :: string
  is_folder :: bool
  size_text :: string

text \<open>One \<open>QListWidgetItem\<close>: its text and the data stored under roles 256 and 257.\<close>

record list_item =
  display_name :: string
  data256 :: string
  data257 :: bool

text \<open>
  The attributes of \<open>Filey\<close> that the handlers read and write. \<open>items\<close> are the rows
  of the widget. \<open>load_thread\<close> holds the worker that was started last and has not
  reported yet: the path it scans and the \<open>animate\<close> flag that the connected lambda
  captured.
\<close>

record filey =
  current_path :: string
  anim_duration :: pyval
  anim_type :: pyval
  current_theme :: pyval
  history :: "string list"
  history_index :: int
  clipboard_path :: "string option"
  full_entry_list :: "entry list"
  items :: "list_item list"
  load_thread :: "(string \<times> bool) option"

text \<open>The attributes as \<open>Filey.__init__\<close> sets them before its first \<open>load_path\<close>.\<close>

definition new_filey :: "string \<Rightarrow> pyval \<Rightarrow> pyval \<Rightarrow> pyval \<Rightarrow> filey" where
  "new_filey path duration kind theme =
     \<lparr> current_path = path, anim_duration = duration, anim_type = kind,
       current_theme = theme, history = [], history_index = - 1,
       clipboard_path = None, full_entry_list = [], items = [],
       load_thread = None \<rparr>"

subsection \<open>\<open>sizeof_fmt\<close>\<close>

text \<open>The number of binary digits of \<open>n\<close>, \<open>n.bit_length()\<close>.\<close>

fun bit_length :: "nat \<Rightarrow> nat" where
  "bit_length n = (if n = 0 then 0 else Suc (bit_length (n div 2)))"

declare bit_length.simps [simp del]

text \<open>The integer nearest to \<open>n / d\<close>, a tie going to the even one.\<close>

definition round_half_even :: "nat \<Rightarrow> nat \<Rightarrow> nat" where
  "round_half_even n d =
     (let q = n div d; r = n mod d
      in if 2 * r < d then q else if d < 2 * r then q + 1
         else if even q then q else q + 1)"

text \<open>
  \<open>float(n)\<close>, which the first \<open>num /= 1024.0\<close> applies to the \<open>int\<close>: the nearest
  double, a tie going to the even mantissa of 53 bits. Below \<open>2 ^ 53\<close> it is \<open>n\<close>
  itself; above, it is still an integer, given here as such. \<open>None\<close> when the
  conversion raises \<open>OverflowError\<close>, which it does when the double would reach
  \<open>2 ^ 1024\<close>.
\<close>

definition float_of_nat :: "nat \<Rightarrow> nat option" where
  "float_of_nat n =
     (if n < 2 ^ 53 then Some n
      else (let shift = bit_length n - 53;
                m = round_half_even n (2 ^ shift) * 2 ^ shift
            in if m < 2 ^ 1024 then Some m else None))"

text \<open>
  \<open>f"{num:3.1f}"\<close> for the float \<open>n / d\<close>, \<open>d\<close> a power of 1024: one decimal,
  rounded to nearest with ties to even. A width of three never pads. Dividing a float
  of this size by 1024.0 is exact, so the quotient is kept as the pair.
\<close>

definition fixed1 :: "nat \<Rightarrow> nat \<Rightarrow> string" where
  "fixed1 n d =
     (let t = round_half_even (10 * n) d
      in str_nat (t div 10) @ ''.'' @ str_nat (t mod 10))"

text \<open>The rounds of the loop after the first division, and the \<open>Y\<close> line after it.\<close>

fun sizeof_units :: "nat \<Rightarrow> nat \<Rightarrow> string list \<Rightarrow> string" where
  "sizeof_units n d [] = fixed1 n d @ '' Y'' @ ''B''"
| "sizeof_units n d (unit # units) =
     (if n < 1024 * d then fixed1 n d @ '' '' @ unit @ ''B''
      else sizeof_units n (d * 1024) units)"

text \<open>
  \<open>sizeof_fmt(num)\<close> for a size: the first round compares and prints the \<open>int\<close>, with
  the empty unit; the division that follows makes it a float. \<open>None\<close> when that
  raises \<open>OverflowError\<close>.
\<close>

definition sizeof_fmt :: "nat \<Rightarrow> string option" where
  "sizeof_fmt num =
     (if num < 1024 then Some (fixed1 num 1 @ '' '' @ [] @ ''B'')
      else case float_of_nat num of
             None \<Rightarrow> None
           | Some m \<Rightarrow>
               Some (sizeof_units m 1024 [''K'', ''M'', ''G'', ''T'', ''P'', ''E'', ''Z'']))"

subsection \<open>\<open>Worker.run\<close>\<close>

definition folder_entry :: "string \<Rightarrow> string \<Rightarrow> entry" where
  "folder_entry path folder =
     \<lparr> name = folder, full_path = path_join path folder, is_folder = True,
       size_text = [] \<rparr>"

text \<open>
  The inner \<open>try\<close> holds both \<open>os.path.getsize\<close> and \<open>sizeof_fmt\<close>: when either
  raises, \<open>size_text\<close> is empty.
\<close>

definition file_entry :: "fsys \<Rightarrow> string \<Rightarrow> string \<Rightarrow> entry" where
  "file_entry fs path file =
     \<lparr> name = file, full_path = path_join path file, is_folder = False,
       size_text = (case getsize fs (path_join path file) of
                      Some size_bytes \<Rightarrow>
                        (case sizeof_fmt size_bytes of Some text \<Rightarrow> text | None \<Rightarrow> [])
                    | None \<Rightarrow> []) \<rparr>"

text \<open>
  The list that \<open>run\<close> emits. \<open>list.sort(key=str.lower)\<close> is stable and compares the
  keys as strings, as \<open>sort_key\<close> does. When \<open>os.listdir\<close> raises, the handler of
  the outer \<open>try\<close> emits the empty list.
\<close>

definition run :: "fsys \<Rightarrow> string \<Rightarrow> entry list" where
  "run fs path =
     (case listdir fs path of
        None \<Rightarrow> []
      | Some entries \<Rightarrow>
          (let folders = filter (\<lambda>e. isdir fs (path_join path e)) entries;
               files = filter (\<lambda>e. \<not> isdir fs (path_join path e)
                                    \<and> isfile fs (path_join path e)) entries
           in map (folder_entry path) (sort_key str_lower folders)
              @ map (file_entry fs path) (sort_key str_lower files)))"

subsection \<open>\<open>Filey.load_path\<close>\<close>

text \<open>
  \<open>load_path\<close> records the path, pushes it on the history when asked to, replaces
  the loading thread by a new one for \<open>Worker(path)\<close> and starts it. The scan itself
  runs in that thread; its result reaches the widget later, through
  \<open>_on_load_finished\<close>. The last statement, \<open>save_session()\<close>, writes the document
  \<open>save_session\<close> (below) to the settings file and leaves the widget as it is.
\<close>

definition load_path :: "filey \<Rightarrow> string \<Rightarrow> bool \<Rightarrow> bool \<Rightarrow> filey" where
  "load_path s path add_history animate =
     (let s1 = s\<lparr>current_path := path\<rparr>;
          s2 = (if add_history
                then s1\<lparr>history := py_slice_upto (history s1) (history_index s1 + 1) @ [path],
                        history_index := history_index s1 + 1\<rparr>
                else s1)
      in s2\<lparr>load_thread := Some (path, animate)\<rparr>)"

subsection \<open>\<open>FileyWindow.go_back\<close> and \<open>FileyWindow.go_forward\<close>\<close>

definition go_back :: "filey \<Rightarrow> py_error + filey" where
  "go_back s =
     (if history_index s > 0 then
        (let s1 = s\<lparr>history_index := history_index s - 1\<rparr>
         in case py_getitem (history s1) (history_index s1) of
              Inl e \<Rightarrow> Inl e
            | Inr path \<Rightarrow> Inr (load_path s1 path False False))
      else Inr s)"

definition go_forward :: "filey \<Rightarrow> py_error + filey" where
  "go_forward s =
     (if history_index s < int (length (history s)) - 1 then
        (let s1 = s\<lparr>history_index := history_index s + 1\<rparr>
         in case py_getitem (history s1) (history_index s1) of
              Inl e \<Rightarrow> Inl e
            | Inr path \<Rightarrow> Inr (load_path s1 path False False))
      else Inr s)"

text \<open>
  A navigation: opening a folder (\<open>item_activated\<close> calls
  \<open>load_path(path, add_history=True)\<close>), the back button, the forward button.
\<close>

datatype nav_op = Push string | Back | Forward

fun nav_step :: "filey \<Rightarrow> nav_op \<Rightarrow> py_error + filey" where
  "nav_step s (Push p) = Inr (load_path s p True True)"
| "nav_step s Back = go_back s"
| "nav_step s Forward = go_forward s"

fun nav_run :: "filey \<Rightarrow> nav_op list \<Rightarrow> py_error + filey" where
  "nav_run s [] = Inr s"
| "nav_run s (x # xs) =
     (case nav_step s x of Inl e \<Rightarrow> Inl e | Inr s' \<Rightarrow> nav_run s' xs)"

text \<open>The invariant of the history once a path has been pushed.\<close>

definition hist_inv :: "filey \<Rightarrow> bool" where
  "hist_inv s = (0 \<le> history_index s \<and> history_index s < int (length (history s)))"

text \<open>The history before the first push.\<close>

definition hist_empty :: "filey \<Rightarrow> bool" where
  "hist_empty s = (history s = [] \<and> history_index s = - 1)"

subsection \<open>Showing a scan result\<close>

text \<open>\<open>_rebuild_file_list\<close>: one row per entry, in the order of the entries.\<close>

definition item_of :: "entry \<Rightarrow> list_item" where
  "item_of e =
     \<lparr> display_name =
         (if size_text e \<noteq> [] then name e @ '' ('' @ size_text e @ '')'' else name e),
       data256 = full_path e, data257 = is_folder e \<rparr>"

definition rebuild_file_list :: "filey \<Rightarrow> entry list \<Rightarrow> filey" where
  "rebuild_file_list s entries = s\<lparr>items := map item_of entries\<rparr>"

text \<open>
  \<open>animate_file_list_reload\<close>: which animation brackets the swap of the rows. With
  \<open>Fade\<close> and \<open>Slide\<close> the rows are rebuilt when the first half of the animation
  has finished; the state returned is the one after the swap. Any other
  \<open>anim_type\<close> than the three known ones leaves the rows as they are.
\<close>

datatype transition = NoAnimation | FadeAnimation | SlideAnimation

definition animate_file_list_reload :: "filey \<Rightarrow> entry list \<Rightarrow> filey \<times> transition" where
  "animate_file_list_reload s entries =
     (if anim_type s = PyStr ''None'' then (rebuild_file_list s entries, NoAnimation)
      else if anim_type s = PyStr ''Fade'' then (rebuild_file_list s entries, FadeAnimation)
      else if anim_type s = PyStr ''Slide'' then (rebuild_file_list s entries, SlideAnimation)
      else (s, NoAnimation))"

text \<open>\<open>_on_load_finished\<close>, the slot of the worker's \<open>finished\<close> signal.\<close>

definition on_load_finished :: "filey \<Rightarrow> entry list \<Rightarrow> bool \<Rightarrow> filey \<times> transition" where
  "on_load_finished s entries animate =
     (let s1 = s\<lparr>full_entry_list := entries\<rparr>
      in if animate then animate_file_list_reload s1 entries
         else (rebuild_file_list s1 entries, NoAnimation))"

text \<open>
  The worker that \<open>load_path\<close> started reports: it has run \<open>Worker.run\<close> on the file
  system as it is then, and its signal reaches \<open>_on_load_finished\<close> with the
  \<open>animate\<close> flag of the call that started it.
\<close>

definition worker_finished :: "fsys \<Rightarrow> filey \<Rightarrow> filey \<times> transition" where
  "worker_finished fs s =
     (case load_thread s of
        None \<Rightarrow> (s, NoAnimation)
      | Some (path, animate) \<Rightarrow>
          on_load_finished (s\<lparr>load_thread := None\<rparr>) (run fs path) animate)"

subsection \<open>\<open>Filey.search_items\<close>\<close>

definition search_items :: "filey \<Rightarrow> string \<Rightarrow> filey" where
  "search_items s text =
     (let text = str_lower (str_strip text)
      in if text = [] then rebuild_file_list s (full_entry_list s)
         else rebuild_file_list s
                (filter (\<lambda>e. str_in text (str_lower (name e))) (full_entry_list s)))"

subsection \<open>\<open>unique_path\<close> of \<open>Filey.paste_item\<close>\<close>

definition copy_name :: "string \<Rightarrow> string \<Rightarrow> nat \<Rightarrow> string" where
  "copy_name base ext i = base @ '' - Copy'' @ str_nat i @ ext"

text \<open>The \<open>while True\<close> loop; \<open>None\<close> when it never returns.\<close>

partial_function (option) unique_path_loop ::
  "(string \<Rightarrow> bool) \<Rightarrow> string \<Rightarrow> string \<Rightarrow> nat \<Rightarrow> string option" where
  "unique_path_loop path_exists base ext i =
     (if \<not> path_exists (copy_name base ext i) then Some (copy_name base ext i)
      else unique_path_loop path_exists base ext (i + 1))"

definition unique_path :: "(string \<Rightarrow> bool) \<Rightarrow> string \<Rightarrow> string option" where
  "unique_path path_exists path =
     (if \<not> path_exists path then Some path
      else unique_path_loop path_exists (fst (splitext path)) (snd (splitext path)) 1)"

subsection \<open>The file-operation handlers of \<open>Filey\<close>\<close>

text \<open>
  Each handler takes the answers of the dialogs it opens, the file system \<open>fs\<close> for
  its checks, and \<open>os\<close>, which tells for a call that changes the file system whether
  it succeeds (\<open>None\<close>) or raises (the text of the exception). It returns the
  widget and what it did, in order.
\<close>

definition warning_text :: "string \<Rightarrow> string \<Rightarrow> string" where
  "warning_text what e = what @ [CHR 0x0A] @ e"

definition create_folder ::
  "(os_call \<Rightarrow> string option) \<Rightarrow> filey \<Rightarrow> string \<times> bool \<Rightarrow> filey \<times> effect list" where
  "create_folder os s answer =
     (let name = fst answer; ok = snd answer
      in if ok \<and> str_strip name \<noteq> [] then
           (let new_path = path_join (current_path s) (str_strip name)
            in case os (Mkdir new_path) of
                 None \<Rightarrow>
                   (load_path s (current_path s) False False, [Os (Mkdir new_path)])
               | Some e \<Rightarrow>
                   (s, [Os (Mkdir new_path),
                        Warning ''Error'' (warning_text ''Could not create folder:'' e)]))
         else (s, []))"

definition create_file ::
  "fsys \<Rightarrow> (os_call \<Rightarrow> string option) \<Rightarrow> filey \<Rightarrow> string \<times> bool \<Rightarrow> filey \<times> effect list" where
  "create_file fs os s answer =
     (let name = fst answer; ok = snd answer
      in if ok \<and> str_strip name \<noteq> [] then
           (let new_path = path_join (current_path s) (str_strip name)
            in if exists fs new_path then (s, [Warning ''Error'' ''File already exists.''])
               else case os (CreateFile new_path) of
                 None \<Rightarrow>
                   (load_path s (current_path s) False False, [Os (CreateFile new_path)])
               | Some e \<Rightarrow>
                   (s, [Os (CreateFile new_path),
                        Warning ''Error'' (warning_text ''Could not create file:'' e)]))
         else (s, []))"

text \<open>\<open>item\<close> is \<open>currentItem()\<close>, \<open>reply\<close> tells whether the user confirmed.\<close>

definition delete_item ::
  "(os_call \<Rightarrow> string option) \<Rightarrow> filey \<Rightarrow> list_item option \<Rightarrow> bool \<Rightarrow> filey \<times> effect list" where
  "delete_item os s item reply =
     (case item of
        None \<Rightarrow> (s, [Information ''Delete'' ''No item selected.''])
      | Some it \<Rightarrow>
          (let path = data256 it; is_folder = data257 it
           in if reply then
                (let call = (if is_folder then Rmtree path else Remove path)
                 in case os call of
                      None \<Rightarrow> (load_path s (current_path s) False False, [Os call])
                    | Some e \<Rightarrow>
                        (s, [Os call, Warning ''Error'' (warning_text ''Could not delete:'' e)]))
              else (s, [])))"

definition rename_item ::
  "fsys \<Rightarrow> (os_call \<Rightarrow> string option) \<Rightarrow> filey \<Rightarrow> list_item option \<Rightarrow> string \<times> bool
     \<Rightarrow> filey \<times> effect list" where
  "rename_item fs os s item answer =
     (case item of
        None \<Rightarrow> (s, [Information ''Rename'' ''No item selected.''])
      | Some it \<Rightarrow>
          (let old_path = data256 it; new_name = fst answer; ok = snd answer
           in if ok \<and> str_strip new_name \<noteq> [] then
                (let new_path = path_join (current_path s) (str_strip new_name)
                 in if exists fs new_path
                    then (s, [Warning ''Error'' ''Name already exists.''])
                    else case os (Rename old_path new_path) of
                      None \<Rightarrow>
                        (load_path s (current_path s) False False,
                         [Os (Rename old_path new_path)])
                    | Some e \<Rightarrow>
                        (s, [Os (Rename old_path new_path),
                             Warning ''Error'' (warning_text ''Could not rename:'' e)]))
              else (s, [])))"

definition copy_item :: "filey \<Rightarrow> list_item option \<Rightarrow> filey \<times> effect list" where
  "copy_item s item =
     (case item of
        None \<Rightarrow> (s, [Information ''Copy'' ''No item selected.''])
      | Some it \<Rightarrow> (s\<lparr>clipboard_path := Some (data256 it)\<rparr>, []))"

text \<open>
  \<open>paste_item\<close>; \<open>None\<close> when \<open>unique_path\<close> never returns. An empty
  \<open>clipboard_path\<close> counts as none, as \<open>not self.clipboard_path\<close> has it.
\<close>

definition paste_item ::
  "fsys \<Rightarrow> (os_call \<Rightarrow> string option) \<Rightarrow> filey \<Rightarrow> (filey \<times> effect list) option" where
  "paste_item fs os s =
     (case clipboard_path s of
        None \<Rightarrow>
          Some (s, [Information ''Paste'' ''Nothing to paste or source no longer exists.''])
      | Some src \<Rightarrow>
          if src = [] \<or> \<not> exists fs src then
            Some (s, [Information ''Paste'' ''Nothing to paste or source no longer exists.''])
          else
            (let base_name = basename src;
                 dest = path_join (current_path s) base_name
             in case unique_path (exists fs) dest of
                  None \<Rightarrow> None
                | Some dest_unique \<Rightarrow>
                    (let call = (if isdir fs src then Copytree src dest_unique
                                 else Copy2 src dest_unique)
                     in case os call of
                          None \<Rightarrow>
                            Some (load_path s (current_path s) False False, [Os call])
                        | Some e \<Rightarrow>
                            Some (s, [Os call,
                                      Warning ''Error''
                                        (warning_text ''Could not paste:'' e)]))))"

text \<open>The loop of \<open>dropEvent\<close> over the dropped paths.\<close>

fun drop_urls ::
  "fsys \<Rightarrow> (os_call \<Rightarrow> string option) \<Rightarrow> string \<Rightarrow> string list \<Rightarrow> effect list" where
  "drop_urls fs os target_path [] = []"
| "drop_urls fs os target_path (src_path # urls) =
     (let base_name = basename src_path;
          dest_path = path_join target_path base_name
      in (if abspath fs src_path = abspath fs dest_path then []
          else case os (Move src_path dest_path) of
                 None \<Rightarrow> [Os (Move src_path dest_path)]
               | Some e \<Rightarrow>
                   [Os (Move src_path dest_path),
                    Warning ''Error'' (warning_text ''Could not move:'' e)])
         @ drop_urls fs os target_path urls)"

text \<open>\<open>dropEvent\<close>; \<open>target_item\<close> is the row under the cursor, if any.\<close>

definition dropEvent ::
  "fsys \<Rightarrow> (os_call \<Rightarrow> string option) \<Rightarrow> filey \<Rightarrow> string list \<Rightarrow> list_item option
     \<Rightarrow> filey \<times> effect list" where
  "dropEvent fs os s urls target_item =
     (let target_path =
            (case target_item of
               Some it \<Rightarrow>
                 (if \<not> isdir fs (data256 it) then dirname (data256 it) else data256 it)
             | None \<Rightarrow> current_path s)
      in (load_path s (current_path s) False True, drop_urls fs os target_path urls))"

subsection \<open>The session settings\<close>

text \<open>
  The settings file: absent, present but not loadable (\<open>open\<close> or \<open>json.load\<close>
  raises), or holding a document. \<open>json.dump\<close> followed by \<open>json.load\<close> gives back
  the document, whose dictionaries are association lists with distinct keys.
\<close>

datatype settings_file = Missing | Unreadable | Document pyval

definition load_settings :: "settings_file \<Rightarrow> pyval" where
  "load_settings file =
     (case file of Missing \<Rightarrow> PyNone | Unreadable \<Rightarrow> PyNone | Document d \<Rightarrow> d)"

text \<open>
  How a write ends: done, \<open>open\<close> raised (the file is as before), or \<open>json.dump\<close>
  raised after the file was truncated. Either exception is printed and dropped.
\<close>

datatype write_outcome = Written | OpenFailed | DumpFailed

definition save_settings :: "settings_file \<Rightarrow> pyval \<Rightarrow> write_outcome \<Rightarrow> settings_file" where
  "save_settings file data outcome =
     (case outcome of
        Written \<Rightarrow> Document data
      | OpenFailed \<Rightarrow> file
      | DumpFailed \<Rightarrow> Unreadable)"

definition save_session :: "filey \<Rightarrow> pyval" where
  "save_session s =
     PyDict [(''last_path'', PyStr (current_path s)),
             (''anim_duration'', anim_duration s),
             (''anim_type'', anim_type s),
             (''theme'', current_theme s)]"

definition DEFAULT_THEMES_Light :: pyval where
  "DEFAULT_THEMES_Light =
     PyDict [(''background'', PyStr ''#f0f0f0''),
             (''text'', PyStr ''#202020''),
             (''selected_bg'', PyStr ''#007acc''),
             (''hover_bg'', PyStr ''#cce4f7''),
             (''tooltip_bg'', PyStr ''#eeeeee'')]"

definition DEFAULT_THEMES_Dark :: pyval where
  "DEFAULT_THEMES_Dark =
     PyDict [(''background'', PyStr ''#1e1e1e''),
             (''text'', PyStr ''#dddddd''),
             (''selected_bg'', PyStr ''#007acc''),
             (''hover_bg'', PyStr ''#094771''),
             (''tooltip_bg'', PyStr ''#333333'')]"

text \<open>The keys of \<open>DEFAULT_THEMES["Dark"]\<close>, in the order of iteration.\<close>

definition theme_keys :: "string list" where
  "theme_keys = [''background'', ''text'', ''selected_bg'', ''hover_bg'', ''tooltip_bg'']"

text \<open>The truth value of a Python value.\<close>

fun truthy :: "pyval \<Rightarrow> bool" where
  "truthy PyNone = False"
| "truthy (PyBool b) = b"
| "truthy (PyInt i) = (i \<noteq> 0)"
| "truthy (PyStr s) = (s \<noteq> [])"
| "truthy (PyList xs) = (xs \<noteq> [])"
| "truthy (PyDict kvs) = (kvs \<noteq> [])"

text \<open>\<open>k in v\<close> for a string \<open>k\<close>.\<close>

fun py_contains :: "string \<Rightarrow> pyval \<Rightarrow> py_error + bool" where
  "py_contains k (PyDict kvs) = Inr (map_of kvs k \<noteq> None)"
| "py_contains k (PyList xs) = Inr (PyStr k \<in> set xs)"
| "py_contains k (PyStr s) = Inr (str_in k s)"
| "py_contains k v = Inl TypeError"

text \<open>\<open>all(k in v for k in keys)\<close>: it stops at the first key that is missing.\<close>

fun all_in :: "string list \<Rightarrow> pyval \<Rightarrow> py_error + bool" where
  "all_in [] v = Inr True"
| "all_in (k # ks) v =
     (case py_contains k v of
        Inl e \<Rightarrow> Inl e
      | Inr present \<Rightarrow> if present then all_in ks v else Inr False)"

text \<open>\<open>d.get(k, fallback)\<close>\<close>

definition dict_get :: "(string \<times> pyval) list \<Rightarrow> string \<Rightarrow> pyval \<Rightarrow> pyval" where
  "dict_get kvs k fallback = (case map_of kvs k of Some v \<Rightarrow> v | None \<Rightarrow> fallback)"

text \<open>
  The first block of \<open>Filey.__init__\<close>: the values of \<open>current_path\<close>,
  \<open>anim_duration\<close>, \<open>anim_type\<close> and \<open>current_theme\<close>. \<open>home\<close> is
  \<open>os.path.expanduser("~")\<close>.
\<close>

definition load_session ::
  "settings_file \<Rightarrow> string \<Rightarrow> py_error + (pyval \<times> pyval \<times> pyval \<times> pyval)" where
  "load_session file home =
     (let settings = load_settings file
      in if truthy settings then
           (case settings of
              PyDict kvs \<Rightarrow>
                (let last_path = dict_get kvs ''last_path'' (PyStr home);
                     duration = dict_get kvs ''anim_duration'' (PyInt 200);
                     kind = dict_get kvs ''anim_type'' (PyStr ''Fade'');
                     theme_loaded = dict_get kvs ''theme'' DEFAULT_THEMES_Dark
                 in case all_in theme_keys theme_loaded of
                      Inl e \<Rightarrow> Inl e
                    | Inr valid \<Rightarrow>
                        Inr (last_path, duration, kind,
                             if valid then theme_loaded else DEFAULT_THEMES_Dark))
            | _ \<Rightarrow> Inl AttributeError)
         else Inr (PyStr home, PyInt 200, PyStr ''Fade'', DEFAULT_THEMES_Dark))"

text \<open>\<open>v[k]\<close> for a string \<open>k\<close>.\<close>

fun py_subscript :: "pyval \<Rightarrow> string \<Rightarrow> py_error + pyval" where
  "py_subscript (PyDict kvs) k = (case map_of kvs k of Some v \<Rightarrow> Inr v | None \<Rightarrow> Inl KeyError)"
| "py_subscript v k = Inl TypeError"

text \<open>
  \<open>theme_to_stylesheet\<close>: the values it reads from the theme, in the order of the
  style sheet; the fixed text between them is left out.
\<close>

fun lookup_all :: "pyval \<Rightarrow> string list \<Rightarrow> py_error + pyval list" where
  "lookup_all theme [] = Inr []"
| "lookup_all theme (k # ks) =
     (case py_subscript theme k of
        Inl e \<Rightarrow> Inl e
      | Inr v \<Rightarrow> (case lookup_all theme ks of Inl e \<Rightarrow> Inl e | Inr vs \<Rightarrow> Inr (v # vs)))"

definition theme_to_stylesheet :: "pyval \<Rightarrow> py_error + pyval list" where
  "theme_to_stylesheet theme =
     lookup_all theme [''background'', ''text'', ''background'', ''selected_bg'',
                       ''hover_bg'', ''tooltip_bg'', ''text'']"

text \<open>
  \<open>Filey.__init__\<close>: the settings, \<open>apply_theme\<close>, the empty history and the first
  \<open>load_path\<close>, whose signal \<open>path_changed\<close> takes a \<open>str\<close> only.
\<close>

definition filey_init :: "settings_file \<Rightarrow> string \<Rightarrow> py_error + filey" where
  "filey_init file home =
     (case load_session file home of
        Inl e \<Rightarrow> Inl e
      | Inr (last_path, duration, kind, theme) \<Rightarrow>
          (case theme_to_stylesheet theme of
             Inl e \<Rightarrow> Inl e
           | Inr sheet \<Rightarrow>
               (case last_path of
                  PyStr path \<Rightarrow>
                    Inr (load_path (new_filey path duration kind theme) path True False)
                | _ \<Rightarrow> Inl TypeError)))"

subsection \<open>A sample directory\<close>

text \<open>
  \<open>/home/u\<close> holds the folders \<open>Zeta\<close> and \<open>alpha\<close>, the files \<open>notes.txt\<close> and
  \<open>Beta.md\<close>, the file \<open>locked.bin\<close>, which is there when the scan classifies it and
  gone when the scan reads its size, and the link \<open>dangling\<close>, which leads nowhere,
  so that \<open>os.stat\<close> fails on it.
\<close>

definition sample_fs :: fsys where
  "sample_fs =
     \<lparr> listdir = (\<lambda>p. if p = ''/home/u''
                then Some [''notes.txt'', ''Zeta'', ''alpha'', ''Beta.md'', ''locked.bin'', ''dangling'']
                else None),
       isdir = (\<lambda>p. p \<in> set [''/home/u'', ''/home/u/Zeta'', ''/home/u/alpha'']),
       isfile = (\<lambda>p. p \<in> set [''/home/u/notes.txt'', ''/home/u/Beta.md'', ''/home/u/locked.bin'']),
       getsize = (\<lambda>p. if p = ''/home/u/notes.txt'' then Some 1536
                else if p = ''/home/u/Beta.md'' then Some 0 else None),
       exists = (\<lambda>p. p \<in> set [''/home/u'', ''/home/u/Zeta'', ''/home/u/alpha'',
                ''/home/u/notes.txt'', ''/home/u/Beta.md'', ''/home/u/locked.bin'']),
       abspath = (\<lambda>p. p) \<rparr>"

subsection \<open>A sample scan result\<close>

definition sample_entries :: "entry list" where
  "sample_entries =
     [\<lparr>name = ''Apps'', full_path = ''/home/u/Apps'', is_folder = True, size_text = []\<rparr>,
      \<lparr>name = ''app.txt'', full_path = ''/home/u/app.txt'', is_folder = False,
        size_text = ''1.5 KB''\<rparr>,
      \<lparr>name = ''readme.md'', full_path = ''/home/u/readme.md'', is_folder = False,
        size_text = []\<rparr>]"

definition sample_widget :: filey where
  "sample_widget =
     (new_filey ''/home/u'' (PyInt 200) (PyStr ''Fade'') DEFAULT_THEMES_Dark)
       \<lparr>history := [''/home/u''], history_index := 0,
        full_entry_list := sample_entries, items := map item_of sample_entries\<rparr>"

subsection \<open>Decimal digits, and a sample paste\<close>

text \<open>The value of a string of decimal digits, \<open>int(s)\<close>.\<close>

definition digit_val :: "char \<Rightarrow> nat" where
  "digit_val c = length (takeWhile (\<lambda>d. d \<noteq> c) ''0123456789'')"

definition dec_value :: "string \<Rightarrow> nat" where
  "dec_value s = foldl (\<lambda>a c. 10 * a + digit_val c) 0 s"

text \<open>A call that changes the file system succeeds.\<close>

definition os_succeeds :: "os_call \<Rightarrow> string option" where
  "os_succeeds call = None"

text \<open>What \<open>os.path.exists\<close> answers once a copy to \<open>dst\<close> has succeeded.\<close>

definition copied :: "fsys \<Rightarrow> string \<Rightarrow> fsys" where
  "copied fs dst = fs\<lparr>exists := (\<lambda>p. p = dst \<or> exists fs p)\<rparr>"

definition paste_fs :: fsys where
  "paste_fs =
     \<lparr> listdir = (\<lambda>p. if p = ''/home/u/docs'' then Some [''note.txt''] else None),
       isdir = (\<lambda>p. p = ''/home/u/docs''),
       isfile = (\<lambda>p. p = ''/home/u/docs/note.txt''),
       getsize = (\<lambda>p. if p = ''/home/u/docs/note.txt'' then Some 12 else None),
       exists = (\<lambda>p. p = ''/home/u/docs'' \<or> p = ''/home/u/docs/note.txt''),
       abspath = (\<lambda>p. p) \<rparr>"

definition paste_widget :: filey where
  "paste_widget =
     (new_filey ''/home/u/docs'' (PyInt 200) (PyStr ''Fade'') DEFAULT_THEMES_Dark)
       \<lparr>history := [''/home/u/docs''], history_index := 0,
        clipboard_path := Some ''/home/u/docs/note.txt''\<rparr>"

subsection \<open>A sample settings document\<close>

text \<open>A settings document whose theme lacks \<open>tooltip_bg\<close>.\<close>

definition short_theme_settings :: "(string \<times> pyval) list" where
  "short_theme_settings =
     [(''last_path'', PyStr ''/home/u/docs''),
      (''anim_duration'', PyInt 400),
      (''anim_type'', PyStr ''Slide''),
      (''theme'', PyDict [(''background'', PyStr ''#ffffff''),
                         (''text'', PyStr ''#000000''),
                         (''selected_bg'', PyStr ''#007acc''),
                         (''hover_bg'', PyStr ''#cce4f7'')])]"

subsection \<open>A sample folder creation\<close>

text \<open>
  The widget that shows \<open>/home/u/docs\<close> of \<open>paste_fs\<close>: started there, with the first
  scan reported.
\<close>

definition docs_widget :: filey where
  "docs_widget =
     fst (worker_finished paste_fs
            (load_path (new_filey ''/home/u/docs'' (PyInt 200) (PyStr ''Fade'')
                          DEFAULT_THEMES_Dark)
               ''/home/u/docs'' True False))"

text \<open>\<open>paste_fs\<close> once \<open>os.mkdir("/home/u/docs/new")\<close> has succeeded.\<close>

definition mkdir_fs :: fsys where
  "mkdir_fs =
     paste_fs\<lparr>listdir := (\<lambda>p. if p = ''/home/u/docs'' then Some [''note.txt'', ''new'']
                            else if p = ''/home/u/docs/new'' then Some [] else None),
              isdir := (\<lambda>p. p = ''/home/u/docs'' \<or> p = ''/home/u/docs/new''),
              exists := (\<lambda>p. p = ''/home/u/docs'' \<or> p = ''/home/u/docs/note.txt''
                              \<or> p = ''/home/u/docs/new'')\<rparr>"

subsection \<open>A directory with files that cannot be read\<close>

text \<open>
  \<open>/srv/drop\<close> lists three names. \<open>os.stat\<close> works on \<open>ok.txt\<close>, a regular file of
  five bytes, and raises on \<open>a.txt\<close> and \<open>b.txt\<close>.
\<close>

definition locked_fs :: fsys where
  "locked_fs =
     \<lparr> listdir = (\<lambda>p. if p = ''/srv/drop'' then Some [''b.txt'', ''ok.txt'', ''a.txt'']
                        else None),
       isdir = (\<lambda>p. p = ''/srv/drop''),
       isfile = (\<lambda>p. p = ''/srv/drop/ok.txt''),
       getsize = (\<lambda>p. if p = ''/srv/drop/ok.txt'' then Some 5 else None),
       exists = (\<lambda>p. p = ''/srv/drop'' \<or> p = ''/srv/drop/ok.txt''),
       abspath = (\<lambda>p. p) \<rparr>"

section \<open>Navigation history\<close>

lemma hist_empty_new_filey: "hist_empty (new_filey p d k t)"
  by (simp add: hist_empty_def new_filey_def)

lemma load_path_push_history:
  assumes "hist_inv s \<or> hist_empty s"
  shows "history (load_path s p True a) = take (nat (history_index s + 1)) (history s) @ [p]"
    and "history_index (load_path s p True a) = history_index s + 1"
    and "hist_inv (load_path s p True a)"
  using assms
  by (auto simp: load_path_def py_slice_upto_def hist_inv_def hist_empty_def Let_def)

lemma load_path_keep_history:
  "history (load_path s p False a) = history s"
  "history_index (load_path s p False a) = history_index s"
  "current_path (load_path s p b a) = p"
  by (simp_all add: load_path_def Let_def)

lemma go_back_inv:
  assumes "hist_inv s"
  shows "go_back s =
           (if history_index s = 0 then Inr s
            else Inr (load_path (s\<lparr>history_index := history_index s - 1\<rparr>)
                        (history s ! nat (history_index s - 1)) False False))"
  using assms by (auto simp: go_back_def py_getitem_def hist_inv_def Let_def)

lemma go_forward_inv:
  assumes "hist_inv s"
  shows "go_forward s =
           (if history_index s = int (length (history s)) - 1 then Inr s
            else Inr (load_path (s\<lparr>history_index := history_index s + 1\<rparr>)
                        (history s ! nat (history_index s + 1)) False False))"
  using assms by (auto simp: go_forward_def py_getitem_def hist_inv_def Let_def)

lemma go_back_empty: "hist_empty s \<Longrightarrow> go_back s = Inr s"
  by (simp add: go_back_def hist_empty_def)

lemma go_forward_empty: "hist_empty s \<Longrightarrow> go_forward s = Inr s"
  by (simp add: go_forward_def hist_empty_def)

lemma nav_step_total:
  assumes "hist_inv s \<or> hist_empty s"
  shows "\<exists>s'. nav_step s x = Inr s' \<and> (hist_inv s' \<or> hist_empty s')"
proof (cases x)
  case (Push p)
  then show ?thesis using assms load_path_push_history(3) [of s p True] by simp
next
  case Back
  show ?thesis
  proof (cases "hist_inv s")
    case True
    then show ?thesis
      using Back by (auto simp: go_back_inv load_path_def hist_inv_def Let_def)
  next
    case False
    then show ?thesis using Back assms by (simp add: go_back_empty)
  qed
next
  case Forward
  show ?thesis
  proof (cases "hist_inv s")
    case True
    then show ?thesis
      using Forward by (auto simp: go_forward_inv load_path_def hist_inv_def Let_def)
  next
    case False
    then show ?thesis using Forward assms by (simp add: go_forward_empty)
  qed
qed

lemma nav_run_total:
  assumes "hist_inv s \<or> hist_empty s"
  shows "\<exists>s'. nav_run s xs = Inr s' \<and> (hist_inv s' \<or> hist_empty s')"
  using assms
proof (induction xs arbitrary: s)
  case Nil
  then show ?case by simp
next
  case (Cons x xs)
  from nav_step_total [OF Cons.prems, of x]
  obtain s1 where s1: "nav_step s x = Inr s1" "hist_inv s1 \<or> hist_empty s1"
    by blast
  from Cons.IH [OF s1(2)] s1(1) show ?case by simp
qed

lemma go_back_moves:
  assumes "hist_inv s" and "0 < history_index s"
  shows "\<exists>s'. go_back s = Inr s' \<and> history_index s' = history_index s - 1
            \<and> current_path s' = history s ! nat (history_index s - 1)
            \<and> history s' = history s \<and> hist_inv s'"
  using assms by (auto simp: go_back_inv load_path_def hist_inv_def Let_def)

lemma go_forward_moves:
  assumes "hist_inv s" and "history_index s \<noteq> int (length (history s)) - 1"
  shows "\<exists>s'. go_forward s = Inr s' \<and> history_index s' = history_index s + 1
            \<and> current_path s' = history s ! nat (history_index s + 1)
            \<and> history s' = history s \<and> hist_inv s'"
  using assms by (auto simp: go_forward_inv load_path_def hist_inv_def Let_def)

lemma go_back_stays:
  "history_index s \<le> 0 \<Longrightarrow> go_back s = Inr s"
  by (simp add: go_back_def)

lemma go_forward_stays:
  "history_index s = int (length (history s)) - 1 \<Longrightarrow> go_forward s = Inr s"
  by (simp add: go_forward_def)

lemma history_example:
  assumes "hist_empty s0"
  shows "\<exists>e. nav_run s0 [Push a, Push b, Push c, Back, Back, Push d] = Inr e
            \<and> history e = [a, d] \<and> history_index e = 1 \<and> go_forward e = Inr e"
  using assms
  by (simp add: hist_empty_def load_path_def go_back_def go_forward_def
      py_slice_upto_def py_getitem_def Let_def)

text \<open>
  C1. After any sequence of navigations from the empty history, no operation fails and:
  a push keeps the entries up to the cursor, drops the ones past it, appends the path
  and advances the cursor by one; back does nothing at cursor 0 (nor on the empty
  history) and otherwise moves the cursor one down and loads the path found there;
  forward does nothing at the last index and otherwise moves the cursor one up and
  loads the path found there; back and forward leave the entries as they are. From the
  empty history, push a, push b, push c, back, back, push d gives the entries [a, d]
  with the cursor at 1, where forward does nothing.
\<close>

theorem history_operations:
  assumes "hist_empty s0"
  shows "(\<exists>s. nav_run s0 ops = Inr s
            \<and> history (load_path s p True anim)
                = take (nat (history_index s + 1)) (history s) @ [p]
            \<and> history_index (load_path s p True anim) = history_index s + 1
            \<and> (history_index s \<le> 0 \<longrightarrow> go_back s = Inr s)
            \<and> (0 < history_index s \<longrightarrow>
                 (\<exists>s'. go_back s = Inr s' \<and> history_index s' = history_index s - 1
                    \<and> current_path s' = history s ! nat (history_index s - 1)
                    \<and> history s' = history s))
            \<and> (history_index s = int (length (history s)) - 1 \<longrightarrow> go_forward s = Inr s)
            \<and> (history_index s \<noteq> int (length (history s)) - 1 \<longrightarrow>
                 (\<exists>s'. go_forward s = Inr s' \<and> history_index s' = history_index s + 1
                    \<and> current_path s' = history s ! nat (history_index s + 1)
                    \<and> history s' = history s)))
       \<and> (\<exists>e. nav_run s0 [Push a, Push b, Push c, Back, Back, Push d] = Inr e
            \<and> history e = [a, d] \<and> history_index e = 1 \<and> go_forward e = Inr e)"
proof -
  from nav_run_total [of s0 ops] assms
  obtain s where s: "nav_run s0 ops = Inr s" "hist_inv s \<or> hist_empty s"
    by blast
  have bk: "0 < history_index s \<longrightarrow>
                 (\<exists>s'. go_back s = Inr s' \<and> history_index s' = history_index s - 1
                    \<and> current_path s' = history s ! nat (history_index s - 1)
                    \<and> history s' = history s)"
    using s(2) go_back_moves [of s] by (auto simp: hist_empty_def)
  have fw: "history_index s \<noteq> int (length (history s)) - 1 \<longrightarrow>
                 (\<exists>s'. go_forward s = Inr s' \<and> history_index s' = history_index s + 1
                    \<and> current_path s' = history s ! nat (history_index s + 1)
                    \<and> history s' = history s)"
    using s(2) go_forward_moves [of s] by (auto simp: hist_empty_def)
  show ?thesis
    using s(1) load_path_push_history(1,2) [OF s(2)] bk fw
      go_back_stays [of s] go_forward_stays [of s] history_example [OF assms]
    by blast
qed

theorem history_operations_witness:
  "hist_empty (new_filey ''/home/u'' (PyInt 200) (PyStr ''Fade'') (PyDict []))
   \<and> (\<exists>e. nav_run (new_filey ''/home/u'' (PyInt 200) (PyStr ''Fade'') (PyDict []))
             [Push ''/a'', Push ''/a/b'', Push ''/a/b/c'', Back, Back, Push ''/a/d''] = Inr e
        \<and> history e = [''/a'', ''/a/d''] \<and> history_index e = 1 \<and> go_forward e = Inr e)"
  using history_operations [OF hist_empty_new_filey,
      of "''/home/u''" "PyInt 200" "PyStr ''Fade''" "PyDict []" "[]" "''/x''" True
         "''/a''" "''/a/b''" "''/a/b/c''" "''/a/d''"]
    hist_empty_new_filey
  by blast

text \<open>
  C2. The first push on the empty history establishes \<open>0 \<le> cursor < length entries\<close>,
  and every history operation (a push, back, forward; also a reload that does not
  push) preserves it, without failing.
\<close>

theorem history_invariant:
  "(hist_empty s0 \<longrightarrow> hist_inv (load_path s0 p True anim))
   \<and> (hist_inv s \<longrightarrow>
        hist_inv (load_path s q add anim')
        \<and> (\<exists>s'. go_back s = Inr s' \<and> hist_inv s')
        \<and> (\<exists>s'. go_forward s = Inr s' \<and> hist_inv s'))"
proof -
  have pu: "hist_inv s \<Longrightarrow> hist_inv (load_path s q add anim')"
    by (cases add) (auto simp: load_path_def py_slice_upto_def hist_inv_def Let_def)
  have bk: "hist_inv s \<Longrightarrow> \<exists>s'. go_back s = Inr s' \<and> hist_inv s'"
    using go_back_moves [of s] go_back_stays [of s]
    by (cases "0 < history_index s") auto
  have fw: "hist_inv s \<Longrightarrow> \<exists>s'. go_forward s = Inr s' \<and> hist_inv s'"
    using go_forward_moves [of s] go_forward_stays [of s]
    by (cases "history_index s = int (length (history s)) - 1") auto
  show ?thesis
    using pu bk fw load_path_push_history(3) [of s0 p anim] by blast
qed

theorem history_invariant_witness:
  "hist_empty (new_filey ''/home/u'' (PyInt 200) (PyStr ''Fade'') (PyDict []))
   \<and> hist_inv (load_path (new_filey ''/home/u'' (PyInt 200) (PyStr ''Fade'') (PyDict []))
        ''/home/u'' True False)
   \<and> hist_inv (load_path (load_path (new_filey ''/home/u'' (PyInt 200) (PyStr ''Fade'')
        (PyDict [])) ''/home/u'' True False) ''/home/u/docs'' True True)
   \<and> (\<exists>s'. go_back (load_path (new_filey ''/home/u'' (PyInt 200) (PyStr ''Fade'')
        (PyDict [])) ''/home/u'' True False) = Inr s' \<and> hist_inv s')"
proof -
  let ?s0 = "new_filey ''/home/u'' (PyInt 200) (PyStr ''Fade'') (PyDict [])"
  let ?s1 = "load_path ?s0 ''/home/u'' True False"
  have e: "hist_empty ?s0" by (rule hist_empty_new_filey)
  have i: "hist_inv ?s1"
    using history_invariant [of ?s0 "''/home/u''" False ?s0 "''/x''" True True] e
    by blast
  show ?thesis
    using history_invariant [of ?s0 "''/x''" True ?s1 "''/home/u/docs''" True True] e i
    by blast
qed

section \<open>The directory scanner\<close>

lemma str_nat_numeral [simp]:
  "str_nat (numeral k) =
     (if (numeral k :: nat) < 10 then [''0123456789'' ! numeral k]
      else str_nat (numeral k div 10) @ [''0123456789'' ! (numeral k mod 10)])"
  "str_nat 0 = ''0''"
  "str_nat 1 = ''1''"
  "str_nat (Suc 0) = ''1''"
  by (simp_all add: str_nat.simps [of "numeral k"] str_nat.simps [of 0]
      str_nat.simps [of 1] str_nat.simps [of "Suc 0"])

lemma bit_length_numeral [simp]:
  "bit_length (numeral k) = Suc (bit_length (numeral k div 2))"
  "bit_length 0 = 0"
  "bit_length 1 = 1"
  "bit_length (Suc 0) = 1"
  by (simp_all add: bit_length.simps [of "numeral k"] bit_length.simps [of 0]
      bit_length.simps [of 1] bit_length.simps [of "Suc 0"])

text \<open>
  Values of \<open>sizeof_fmt\<close>, each as CPython prints it: a tie that goes to the even
  digit, a size that rounds up to 1024.0, and sizes past \<open>2 ^ 53\<close>, where the
  conversion to a float rounds before the unit is chosen.
\<close>

lemma sizeof_fmt_samples:
  "sizeof_fmt 0 = Some ''0.0 B''"
  "sizeof_fmt 5 = Some ''5.0 B''"
  "sizeof_fmt 12 = Some ''12.0 B''"
  "sizeof_fmt 1536 = Some ''1.5 KB''"
  "sizeof_fmt 1280 = Some ''1.2 KB''"
  "sizeof_fmt 1048575 = Some ''1024.0 KB''"
  "sizeof_fmt 9007199254740993 = Some ''8.0 PB''"
  "sizeof_fmt 1152921504606846975 = Some ''1.0 EB''"
  "sizeof_fmt 9223372036854775807 = Some ''8.0 EB''"
  "sizeof_fmt 1000000000000000000000000000000 = Some ''827180.6 YB''"
  by (simp_all add: sizeof_fmt_def float_of_nat_def fixed1_def round_half_even_def Let_def)

lemma sizeof_units_nonempty: "sizeof_units n d units \<noteq> []"
  by (induction units arbitrary: d) simp_all

lemma sizeof_fmt_nonempty: "sizeof_fmt n = Some t \<Longrightarrow> t \<noteq> []"
  by (auto simp: sizeof_fmt_def sizeof_units_nonempty split: if_splits option.splits)

lemma pow_bit_length: "n \<noteq> 0 \<Longrightarrow> 2 ^ (bit_length n - 1) \<le> n"
proof (induction n rule: bit_length.induct)
  case (1 n)
  show ?case
  proof (cases "n div 2 = 0")
    case True
    then show ?thesis
      using "1.prems" by (simp add: bit_length.simps [of n] bit_length.simps [of 0])
  next
    case False
    then have ih: "2 ^ (bit_length (n div 2) - 1) \<le> n div 2"
      using "1.IH" "1.prems" by simp
    have pos: "bit_length (n div 2) \<noteq> 0"
      using False by (simp add: bit_length.simps [of "n div 2"])
    then have "(2::nat) ^ bit_length (n div 2) = 2 * 2 ^ (bit_length (n div 2) - 1)"
      by (cases "bit_length (n div 2)") simp_all
    then have "(2::nat) ^ bit_length (n div 2) \<le> n" using ih by simp
    then show ?thesis using "1.prems" by (simp add: bit_length.simps [of n])
  qed
qed

lemma round_half_even_le: "round_half_even n d * d \<le> n + d"
proof -
  have "round_half_even n d \<le> n div d + 1"
    by (simp add: round_half_even_def Let_def)
  then have "round_half_even n d * d \<le> (n div d + 1) * d"
    by (rule mult_le_mono1)
  also have "\<dots> = n div d * d + d" by simp
  also have "\<dots> \<le> n + d" by simp
  finally show ?thesis .
qed

lemma float_of_nat_returns:
  assumes "n < 2 ^ 1023"
  shows "float_of_nat n \<noteq> None"
proof (cases "n < 2 ^ 53")
  case True
  then show ?thesis by (simp add: float_of_nat_def)
next
  case False
  then have "n \<noteq> 0" by auto
  then have "(2::nat) ^ (bit_length n - 1) \<le> n" by (rule pow_bit_length)
  moreover have "(2::nat) ^ (bit_length n - 53) \<le> 2 ^ (bit_length n - 1)"
    by (rule power_increasing) simp_all
  ultimately have "(2::nat) ^ (bit_length n - 53) \<le> n" by (rule order_trans [rotated])
  then have "round_half_even n (2 ^ (bit_length n - 53)) * 2 ^ (bit_length n - 53) \<le> n + n"
    using round_half_even_le [of n "2 ^ (bit_length n - 53)"] by linarith
  moreover have "n + n < 2 ^ 1024" using assms by simp
  ultimately show ?thesis using False by (simp add: float_of_nat_def Let_def)
qed

lemma sizeof_fmt_returns:
  assumes "n < 2 ^ 1023"
  shows "\<exists>t. sizeof_fmt n = Some t \<and> t \<noteq> []"
proof -
  from float_of_nat_returns [OF assms] obtain m where "float_of_nat n = Some m" by auto
  then have "\<exists>t. sizeof_fmt n = Some t" by (simp add: sizeof_fmt_def)
  then show ?thesis using sizeof_fmt_nonempty by blast
qed

lemma str_lower_samples:
  "str_lower ''notes.txt'' = ''notes.txt''"
  "str_lower ''Zeta'' = ''zeta''"
  "str_lower ''alpha'' = ''alpha''"
  "str_lower ''Beta.md'' = ''beta.md''"
  "str_lower ''locked.bin'' = ''locked.bin''"
  "str_lower ''Apps'' = ''apps''"
  "str_lower ''app.txt'' = ''app.txt''"
  "str_lower ''readme.md'' = ''readme.md''"
  "str_lower ''app'' = ''app''"
  "str_lower ''APP'' = ''app''"
  "str_lower '' app'' = '' app''"
  "str_lower [CHR 0xC9, CHR ''C'', CHR ''O'', CHR ''L'', CHR ''E'']
     = [CHR 0xE9, CHR ''c'', CHR ''o'', CHR ''l'', CHR ''e'']"
  "str_lower [CHR 0xD7, CHR 0xDF, CHR 0xB5] = [CHR 0xD7, CHR 0xDF, CHR 0xB5]"
  by (simp_all add: str_lower_def chr_lower_def)

lemma str_strip_samples:
  "str_strip ''app'' = ''app''"
  "str_strip '' app'' = ''app''"
  "str_strip ''APP '' = ''APP''"
  "str_strip ''new'' = ''new''"
  "str_strip [CHR 0xA0, CHR ''a'', CHR ''p'', CHR ''p'', CHR 0x85, CHR 0x09] = ''app''"
  "str_strip [CHR 0xA0, CHR '' ''] = []"
  by (simp_all add: str_strip_def py_isspace_def)

lemma run_sample:
  "run sample_fs ''/home/u'' =
     [\<lparr>name = ''alpha'', full_path = ''/home/u/alpha'', is_folder = True, size_text = []\<rparr>,
      \<lparr>name = ''Zeta'', full_path = ''/home/u/Zeta'', is_folder = True, size_text = []\<rparr>,
      \<lparr>name = ''Beta.md'', full_path = ''/home/u/Beta.md'', is_folder = False,
        size_text = ''0.0 B''\<rparr>,
      \<lparr>name = ''locked.bin'', full_path = ''/home/u/locked.bin'', is_folder = False,
        size_text = []\<rparr>,
      \<lparr>name = ''notes.txt'', full_path = ''/home/u/notes.txt'', is_folder = False,
        size_text = ''1.5 KB''\<rparr>]"
  by (simp add: run_def sample_fs_def path_join_def Let_def str_lower_samples
      folder_entry_def file_entry_def sizeof_fmt_samples)

lemma name_folder_entry: "map name (map (folder_entry path) xs) = xs"
  by (induction xs) (simp_all add: folder_entry_def)

lemma name_file_entry: "map name (map (file_entry fs path) xs) = xs"
  by (induction xs) (simp_all add: file_entry_def)

lemma lower_name_folder:
  "map (\<lambda>e. str_lower (name e)) (map (folder_entry path) ys) = map str_lower ys"
  by (induction ys) (simp_all add: folder_entry_def)

lemma lower_name_file:
  "map (\<lambda>e. str_lower (name e)) (map (file_entry fs path) ys) = map str_lower ys"
  by (induction ys) (simp_all add: file_entry_def)

lemma sorted_lower_folder:
  "sorted (map (\<lambda>e. str_lower (name e)) (map (folder_entry path) (sort_key str_lower xs)))"
  unfolding lower_name_folder by (rule sorted_sort_key)

lemma sorted_lower_file:
  "sorted (map (\<lambda>e. str_lower (name e)) (map (file_entry fs path) (sort_key str_lower xs)))"
  unfolding lower_name_file by (rule sorted_sort_key)

lemma names_of_run:
  assumes "listdir fs path = Some entries"
  shows "name ` set (run fs path)
           = {e \<in> set entries. isdir fs (path_join path e) \<or> isfile fs (path_join path e)}"
proof -
  have r: "set (run fs path)
         = folder_entry path ` {e \<in> set entries. isdir fs (path_join path e)}
         \<union> file_entry fs path ` {e \<in> set entries. \<not> isdir fs (path_join path e)
                                     \<and> isfile fs (path_join path e)}"
    using assms by (simp add: run_def Let_def)
  show ?thesis
    unfolding r image_Un image_image by (auto simp: folder_entry_def file_entry_def)
qed

lemma run_locked:
  "run locked_fs ''/srv/drop''
     = [\<lparr>name = ''ok.txt'', full_path = ''/srv/drop/ok.txt'', is_folder = False,
         size_text = ''5.0 B''\<rparr>]"
  by (simp add: run_def locked_fs_def path_join_def Let_def file_entry_def
      sizeof_fmt_samples)

text \<open>
  C3, as the code has it. When the directory can be listed, the scan result is a block
  of folder entries followed by a block of file entries, each block sorted by the
  lower-cased name. The folder entries are the listed names that \<open>isdir\<close> accepts, the
  file entries the listed names that \<open>isfile\<close> accepts and \<open>isdir\<close> does not, each as
  often as listed. A listed name on which \<open>os.stat\<close> fails is in no entry. A file
  entry's \<open>size_text\<close> is empty when \<open>getsize\<close>, called after the classification,
  raises; when it returns a size below \<open>2 ^ 1023\<close>, \<open>size_text\<close> is that size
  formatted and is not empty.
\<close>

theorem scan_order_and_sizes:
  assumes "listdir fs path = Some entries"
  shows "\<exists>ds fl. run fs path = ds @ fl
           \<and> (\<forall>e\<in>set ds. is_folder e) \<and> (\<forall>e\<in>set fl. \<not> is_folder e)
           \<and> sorted (map (\<lambda>e. str_lower (name e)) ds)
           \<and> sorted (map (\<lambda>e. str_lower (name e)) fl)
           \<and> mset (map name ds) = mset (filter (\<lambda>e. isdir fs (path_join path e)) entries)
           \<and> mset (map name fl)
               = mset (filter (\<lambda>e. \<not> isdir fs (path_join path e)
                                   \<and> isfile fs (path_join path e)) entries)
           \<and> (\<forall>e\<in>set entries. stat_fails fs (path_join path e)
                 \<longrightarrow> e \<notin> name ` set (run fs path))
           \<and> (\<forall>e\<in>set fl. full_path e = path_join path (name e)
                 \<and> (getsize fs (full_path e) = None \<longrightarrow> size_text e = [])
                 \<and> (\<forall>n. getsize fs (full_path e) = Some n \<and> n < 2 ^ 1023
                        \<longrightarrow> sizeof_fmt n = Some (size_text e) \<and> size_text e \<noteq> [])
                 \<and> size_text e = (case getsize fs (full_path e) of
                                     Some n \<Rightarrow> (case sizeof_fmt n of
                                                  Some t \<Rightarrow> t | None \<Rightarrow> [])
                                   | None \<Rightarrow> []))"
proof -
  let ?D = "filter (\<lambda>e. isdir fs (path_join path e)) entries"
  let ?F = "filter (\<lambda>e. \<not> isdir fs (path_join path e) \<and> isfile fs (path_join path e)) entries"
  let ?ds = "map (folder_entry path) (sort_key str_lower ?D)"
  let ?fl = "map (file_entry fs path) (sort_key str_lower ?F)"
  have r: "run fs path = ?ds @ ?fl"
    using assms by (simp add: run_def Let_def)
  have d1: "\<forall>e\<in>set ?ds. is_folder e" by (auto simp: folder_entry_def)
  have f1: "\<forall>e\<in>set ?fl. \<not> is_folder e" by (auto simp: file_entry_def)
  have d2: "mset (map name ?ds) = mset ?D"
    unfolding name_folder_entry by (rule mset_sort)
  have f2: "mset (map name ?fl) = mset ?F"
    unfolding name_file_entry by (rule mset_sort)
  have s: "\<forall>e\<in>set entries. stat_fails fs (path_join path e)
                 \<longrightarrow> e \<notin> name ` set (run fs path)"
    unfolding names_of_run [OF assms] by (simp add: stat_fails_def)
  have f3: "\<forall>e\<in>set ?fl. full_path e = path_join path (name e)
                 \<and> (getsize fs (full_path e) = None \<longrightarrow> size_text e = [])
                 \<and> (\<forall>n. getsize fs (full_path e) = Some n \<and> n < 2 ^ 1023
                        \<longrightarrow> sizeof_fmt n = Some (size_text e) \<and> size_text e \<noteq> [])
                 \<and> size_text e = (case getsize fs (full_path e) of
                                     Some n \<Rightarrow> (case sizeof_fmt n of
                                                  Some t \<Rightarrow> t | None \<Rightarrow> [])
                                   | None \<Rightarrow> [])"
  proof
    fix e
    assume "e \<in> set ?fl"
    then obtain f where e: "e = file_entry fs path f" by auto
    have a: "full_path e = path_join path (name e)"
      by (simp add: e file_entry_def)
    have b: "size_text e = (case getsize fs (full_path e) of
                                     Some n \<Rightarrow> (case sizeof_fmt n of
                                                  Some t \<Rightarrow> t | None \<Rightarrow> [])
                                   | None \<Rightarrow> [])"
      by (simp add: e file_entry_def)
    have c: "getsize fs (full_path e) = None \<longrightarrow> size_text e = []"
      using b by simp
    have d: "\<forall>n. getsize fs (full_path e) = Some n \<and> n < 2 ^ 1023
                        \<longrightarrow> sizeof_fmt n = Some (size_text e) \<and> size_text e \<noteq> []"
    proof (intro allI impI)
      fix n
      assume h: "getsize fs (full_path e) = Some n \<and> n < 2 ^ 1023"
      then obtain t where t: "sizeof_fmt n = Some t" "t \<noteq> []"
        using sizeof_fmt_returns [of n] by blast
      then have "size_text e = t" using b h by simp
      then show "sizeof_fmt n = Some (size_text e) \<and> size_text e \<noteq> []"
        using t by simp
    qed
    show "full_path e = path_join path (name e)
                 \<and> (getsize fs (full_path e) = None \<longrightarrow> size_text e = [])
                 \<and> (\<forall>n. getsize fs (full_path e) = Some n \<and> n < 2 ^ 1023
                        \<longrightarrow> sizeof_fmt n = Some (size_text e) \<and> size_text e \<noteq> [])
                 \<and> size_text e = (case getsize fs (full_path e) of
                                     Some n \<Rightarrow> (case sizeof_fmt n of
                                                  Some t \<Rightarrow> t | None \<Rightarrow> [])
                                   | None \<Rightarrow> [])"
      using a b c d by blast
  qed
  have "run fs path = ?ds @ ?fl
           \<and> (\<forall>e\<in>set ?ds. is_folder e) \<and> (\<forall>e\<in>set ?fl. \<not> is_folder e)
           \<and> sorted (map (\<lambda>e. str_lower (name e)) ?ds)
           \<and> sorted (map (\<lambda>e. str_lower (name e)) ?fl)
           \<and> mset (map name ?ds) = mset ?D
           \<and> mset (map name ?fl) = mset ?F
           \<and> (\<forall>e\<in>set entries. stat_fails fs (path_join path e)
                 \<longrightarrow> e \<notin> name ` set (run fs path))
           \<and> (\<forall>e\<in>set ?fl. full_path e = path_join path (name e)
                 \<and> (getsize fs (full_path e) = None \<longrightarrow> size_text e = [])
                 \<and> (\<forall>n. getsize fs (full_path e) = Some n \<and> n < 2 ^ 1023
                        \<longrightarrow> sizeof_fmt n = Some (size_text e) \<and> size_text e \<noteq> [])
                 \<and> size_text e = (case getsize fs (full_path e) of
                                     Some n \<Rightarrow> (case sizeof_fmt n of
                                                  Some t \<Rightarrow> t | None \<Rightarrow> [])
                                   | None \<Rightarrow> []))"
    by (intro conjI r d1 f1 d2 f2 s f3 sorted_lower_folder sorted_lower_file)
  then show ?thesis by blast
qed

text \<open>
  Unreadable files are not kept: \<open>/srv/drop\<close> lists one file that \<open>os.stat\<close> reads and
  two on which it fails, and the scan result is the one entry, not three of which two
  have an empty \<open>size_text\<close>.
\<close>

theorem scan_drops_unreadable_counterexample:
  "listdir locked_fs ''/srv/drop'' = Some [''b.txt'', ''ok.txt'', ''a.txt'']
   \<and> stat_fails locked_fs (path_join ''/srv/drop'' ''a.txt'')
   \<and> stat_fails locked_fs (path_join ''/srv/drop'' ''b.txt'')
   \<and> map name (run locked_fs ''/srv/drop'') = [''ok.txt'']
   \<and> map size_text (run locked_fs ''/srv/drop'') = [''5.0 B'']
   \<and> length (run locked_fs ''/srv/drop'') \<noteq> 1 + 2"
  by (simp add: run_locked) (simp add: locked_fs_def stat_fails_def path_join_def)

theorem scan_order_and_sizes_witness:
  "listdir sample_fs ''/home/u''
     = Some [''notes.txt'', ''Zeta'', ''alpha'', ''Beta.md'', ''locked.bin'', ''dangling'']
   \<and> stat_fails sample_fs (path_join ''/home/u'' ''dangling'')
   \<and> ''dangling'' \<notin> name ` set (run sample_fs ''/home/u'')
   \<and> map name (run sample_fs ''/home/u'')
       = [''alpha'', ''Zeta'', ''Beta.md'', ''locked.bin'', ''notes.txt'']
   \<and> map size_text (run sample_fs ''/home/u'') = [[], [], ''0.0 B'', [], ''1.5 KB'']
   \<and> (\<exists>ds fl. run sample_fs ''/home/u'' = ds @ fl
         \<and> sorted (map (\<lambda>e. str_lower (name e)) ds)
         \<and> sorted (map (\<lambda>e. str_lower (name e)) fl))"
proof -
  let ?es = "[''notes.txt'', ''Zeta'', ''alpha'', ''Beta.md'', ''locked.bin'', ''dangling'']"
  have h: "listdir sample_fs ''/home/u'' = Some ?es"
    by (simp add: sample_fs_def)
  have d: "stat_fails sample_fs (path_join ''/home/u'' ''dangling'')"
    by (simp add: sample_fs_def stat_fails_def path_join_def)
  from scan_order_and_sizes [OF h] d
  have "''dangling'' \<notin> name ` set (run sample_fs ''/home/u'')
        \<and> (\<exists>ds fl. run sample_fs ''/home/u'' = ds @ fl
         \<and> sorted (map (\<lambda>e. str_lower (name e)) ds)
         \<and> sorted (map (\<lambda>e. str_lower (name e)) fl))"
    by auto
  then show ?thesis using h d by (simp add: run_sample)
qed

text \<open>
  C6. When listing the directory raises, the scan emits the empty list: the same
  result as for a directory that lists as empty. The slot that receives it stores and
  shows the empty list and opens no message box.
\<close>

theorem failed_scan_is_empty:
  assumes "listdir fs path = None"
  shows "run fs path = []
       \<and> (listdir fs2 path2 = Some [] \<longrightarrow> run fs2 path2 = run fs path)
       \<and> on_load_finished s (run fs path) False
           = (s\<lparr>full_entry_list := [], items := []\<rparr>, NoAnimation)
       \<and> worker_finished fs (load_path s path add False)
           = ((load_path s path add False)
                \<lparr>load_thread := None, full_entry_list := [], items := []\<rparr>, NoAnimation)"
proof -
  have r: "run fs path = []" using assms by (simp add: run_def)
  have e: "listdir fs2 path2 = Some [] \<longrightarrow> run fs2 path2 = []"
    by (simp add: run_def)
  have l: "load_thread (load_path s path add False) = Some (path, False)"
    by (simp add: load_path_def Let_def)
  show ?thesis
    using e by (simp add: r l worker_finished_def on_load_finished_def rebuild_file_list_def)
qed

theorem failed_scan_is_empty_witness:
  "listdir sample_fs ''/root'' = None
   \<and> run sample_fs ''/root'' = []
   \<and> on_load_finished (new_filey ''/root'' (PyInt 200) (PyStr ''Fade'') PyNone)
         (run sample_fs ''/root'') False
       = ((new_filey ''/root'' (PyInt 200) (PyStr ''Fade'') PyNone)
            \<lparr>full_entry_list := [], items := []\<rparr>, NoAnimation)"
proof -
  have h: "listdir sample_fs ''/root'' = None" by (simp add: sample_fs_def)
  from failed_scan_is_empty [OF h, of sample_fs "''/root''"
      "new_filey ''/root'' (PyInt 200) (PyStr ''Fade'') PyNone" False]
  show ?thesis using h by blast
qed

text \<open>
  C10. The names in the scan result are the listed names that are a directory or a
  regular file. A listed name that is neither (a dangling link, a socket, a FIFO) is in
  no entry, and an entry is a folder exactly when its name is a directory.
\<close>

theorem scan_omits_other_entries:
  assumes "listdir fs path = Some entries"
  shows "name ` set (run fs path)
           = {e \<in> set entries. isdir fs (path_join path e) \<or> isfile fs (path_join path e)}
       \<and> (\<forall>e\<in>set entries. \<not> isdir fs (path_join path e) \<and> \<not> isfile fs (path_join path e)
             \<longrightarrow> e \<notin> name ` set (run fs path))
       \<and> (\<forall>r\<in>set (run fs path). is_folder r = isdir fs (path_join path (name r)))"
proof -
  have r: "set (run fs path)
         = folder_entry path ` {e \<in> set entries. isdir fs (path_join path e)}
         \<union> file_entry fs path ` {e \<in> set entries. \<not> isdir fs (path_join path e)
                                     \<and> isfile fs (path_join path e)}"
    using assms by (simp add: run_def Let_def)
  have n: "name ` set (run fs path)
         = {e \<in> set entries. isdir fs (path_join path e) \<or> isfile fs (path_join path e)}"
    unfolding r image_Un image_image by (auto simp: folder_entry_def file_entry_def)
  have f: "\<forall>r\<in>set (run fs path). is_folder r = isdir fs (path_join path (name r))"
    unfolding r by (auto simp: folder_entry_def file_entry_def)
  show ?thesis using n f by blast
qed

theorem scan_omits_other_entries_witness:
  "listdir sample_fs ''/home/u''
     = Some [''notes.txt'', ''Zeta'', ''alpha'', ''Beta.md'', ''locked.bin'', ''dangling'']
   \<and> \<not> isdir sample_fs (path_join ''/home/u'' ''dangling'')
   \<and> \<not> isfile sample_fs (path_join ''/home/u'' ''dangling'')
   \<and> ''dangling'' \<notin> name ` set (run sample_fs ''/home/u'')"
proof -
  have h: "listdir sample_fs ''/home/u''
     = Some [''notes.txt'', ''Zeta'', ''alpha'', ''Beta.md'', ''locked.bin'', ''dangling'']"
    by (simp add: sample_fs_def)
  have d: "\<not> isdir sample_fs (path_join ''/home/u'' ''dangling'')"
    "\<not> isfile sample_fs (path_join ''/home/u'' ''dangling'')"
    by (simp_all add: sample_fs_def path_join_def)
  from scan_omits_other_entries [OF h] d
  have "''dangling'' \<notin> name ` set (run sample_fs ''/home/u'')" by simp
  then show ?thesis using h d by simp
qed


section \<open>The search box\<close>

lemma take_length_eq_iff: "take (length sub) xs = sub \<longleftrightarrow> (\<exists>ss. xs = sub @ ss)"
proof
  assume "take (length sub) xs = sub"
  then have "xs = sub @ drop (length sub) xs"
    by (metis append_take_drop_id)
  then show "\<exists>ss. xs = sub @ ss" ..
next
  assume "\<exists>ss. xs = sub @ ss"
  then show "take (length sub) xs = sub" by auto
qed

lemma str_in_iff: "str_in sub s \<longleftrightarrow> (\<exists>ps ss. s = ps @ sub @ ss)"
proof (induction s)
  case Nil
  then show ?case by auto
next
  case (Cons c cs)
  have "(\<exists>ps ss. c # cs = ps @ sub @ ss)
        \<longleftrightarrow> (\<exists>ss. c # cs = sub @ ss) \<or> (\<exists>ps ss. cs = ps @ sub @ ss)"
  proof
    assume "\<exists>ps ss. c # cs = ps @ sub @ ss"
    then obtain ps ss where e: "c # cs = ps @ sub @ ss" by blast
    show "(\<exists>ss. c # cs = sub @ ss) \<or> (\<exists>ps ss. cs = ps @ sub @ ss)"
    proof (cases ps)
      case Nil
      then show ?thesis using e by auto
    next
      case (Cons p ps')
      then have "cs = ps' @ sub @ ss" using e by simp
      then show ?thesis by blast
    qed
  next
    assume "(\<exists>ss. c # cs = sub @ ss) \<or> (\<exists>ps ss. cs = ps @ sub @ ss)"
    then show "\<exists>ps ss. c # cs = ps @ sub @ ss"
    proof
      assume "\<exists>ss. c # cs = sub @ ss"
      then obtain ss where "c # cs = [] @ sub @ ss" by auto
      then show ?thesis by blast
    next
      assume "\<exists>ps ss. cs = ps @ sub @ ss"
      then obtain ps ss where "c # cs = (c # ps) @ sub @ ss" by auto
      then show ?thesis by blast
    qed
  qed
  then show ?case using Cons.IH take_length_eq_iff [of sub "c # cs"] by simp
qed

lemma str_in_empty: "str_in [] s"
  by (cases s) simp_all

lemma str_lower_Nil: "str_lower [] = []"
  by (simp add: str_lower_def)

lemma str_lower_empty: "str_lower t = [] \<longleftrightarrow> t = []"
  by (simp add: str_lower_def)

lemma search_items_eq:
  "search_items s text =
     s\<lparr>items := map item_of
          (filter (\<lambda>e. str_in (str_lower (str_strip text)) (str_lower (name e)))
             (full_entry_list s))\<rparr>"
  by (simp add: search_items_def Let_def rebuild_file_list_def str_lower_empty str_lower_Nil
      str_in_empty)

text \<open>
  C5, as the code has it. For every text, \<open>search_items\<close> shows the entries of the last
  scan result whose lower-cased name contains the lower-cased text once the whitespace
  around the text is stripped, in their order and with their fields, and changes
  nothing but the rows: the scan result stays and no scan is started. A text that is
  empty after stripping shows the whole scan result. On Apps, app.txt, readme.md the
  text app shows Apps and app.txt, and the empty text shows the three again.
\<close>

theorem search_filters_stripped_text:
  "search_items s text =
     s\<lparr>items := map item_of
          (filter (\<lambda>e. \<exists>ps ss. str_lower (name e) = ps @ str_lower (str_strip text) @ ss)
             (full_entry_list s))\<rparr>
   \<and> full_entry_list (search_items s text) = full_entry_list s
   \<and> load_thread (search_items s text) = load_thread s
   \<and> (if str_strip text = []
       then items (search_items s text) = map item_of (full_entry_list s)
       else items (search_items s text)
            = map item_of (filter (\<lambda>e. str_in (str_lower (str_strip text)) (str_lower (name e)))
                (full_entry_list s)))
   \<and> map display_name (items (search_items sample_widget ''app''))
       = [''Apps'', ''app.txt (1.5 KB)'']
   \<and> map data257 (items (search_items sample_widget ''app'')) = [True, False]
   \<and> items (search_items (search_items sample_widget ''app'') [])
       = map item_of sample_entries"
proof -
  have a: "search_items s text =
     s\<lparr>items := map item_of
          (filter (\<lambda>e. \<exists>ps ss. str_lower (name e) = ps @ str_lower (str_strip text) @ ss)
             (full_entry_list s))\<rparr>"
    by (simp add: search_items_eq str_in_iff)
  have b: "full_entry_list (search_items s text) = full_entry_list s"
    "load_thread (search_items s text) = load_thread s"
    by (simp_all add: search_items_eq)
  have c: "if str_strip text = []
       then items (search_items s text) = map item_of (full_entry_list s)
       else items (search_items s text)
            = map item_of (filter (\<lambda>e. str_in (str_lower (str_strip text)) (str_lower (name e)))
                (full_entry_list s))"
    by (simp add: search_items_eq str_lower_def str_in_empty)
  have d: "map display_name (items (search_items sample_widget ''app''))
       = [''Apps'', ''app.txt (1.5 KB)'']"
    "map data257 (items (search_items sample_widget ''app'')) = [True, False]"
    by (simp_all add: search_items_def sample_widget_def sample_entries_def new_filey_def
        rebuild_file_list_def item_of_def str_strip_samples str_lower_samples Let_def)
  have e: "items (search_items (search_items sample_widget ''app'') [])
       = map item_of sample_entries"
    by (simp add: search_items_eq str_strip_def str_lower_def str_in_empty sample_widget_def
        new_filey_def)
  show ?thesis using a b c d e by blast
qed

text \<open>
  The text may not be taken as typed: with a leading space, \<open>'' app''\<close> still shows
  Apps and app.txt, while no name of the scan result contains that text.
\<close>

theorem search_exact_text_counterexample:
  "items (search_items sample_widget '' app'') = map item_of (take 2 sample_entries)
   \<and> filter (\<lambda>e. str_in (str_lower '' app'') (str_lower (name e)))
        (full_entry_list sample_widget) = []
   \<and> items (search_items sample_widget '' app'')
       \<noteq> map item_of (filter (\<lambda>e. str_in (str_lower '' app'') (str_lower (name e)))
                        (full_entry_list sample_widget))"
  by (simp add: search_items_def sample_widget_def sample_entries_def new_filey_def
        rebuild_file_list_def item_of_def str_strip_samples str_lower_samples Let_def)

theorem search_filters_stripped_text_witness:
  "full_entry_list (search_items sample_widget ''APP '') = full_entry_list sample_widget
   \<and> load_thread (search_items sample_widget ''APP '') = load_thread sample_widget
   \<and> items (search_items sample_widget ''APP '') = map item_of (take 2 sample_entries)
   \<and> items (search_items sample_widget
               [CHR 0xA0, CHR ''a'', CHR ''p'', CHR ''p'', CHR 0x85, CHR 0x09])
       = map item_of (take 2 sample_entries)"
proof -
  let ?nbsp = "[CHR 0xA0, CHR ''a'', CHR ''p'', CHR ''p'', CHR 0x85, CHR 0x09]"
  have f: "filter (\<lambda>e. str_in ''app'' (str_lower (name e))) (full_entry_list sample_widget)
           = take 2 sample_entries"
    by (simp add: sample_widget_def sample_entries_def new_filey_def str_lower_samples)
  note t1 = search_filters_stripped_text [of sample_widget "''APP ''"]
  note t2 = search_filters_stripped_text [of sample_widget ?nbsp]
  have a: "full_entry_list (search_items sample_widget ''APP '') = full_entry_list sample_widget"
    and b: "load_thread (search_items sample_widget ''APP '') = load_thread sample_widget"
    using t1 by blast+
  have "if str_strip ''APP '' = []
       then items (search_items sample_widget ''APP '')
            = map item_of (full_entry_list sample_widget)
       else items (search_items sample_widget ''APP '')
            = map item_of (filter (\<lambda>e. str_in (str_lower (str_strip ''APP ''))
                (str_lower (name e))) (full_entry_list sample_widget))"
    using t1 by blast
  then have c: "items (search_items sample_widget ''APP '') = map item_of (take 2 sample_entries)"
    by (simp add: str_strip_samples str_lower_samples f)
  have "if str_strip ?nbsp = []
       then items (search_items sample_widget ?nbsp)
            = map item_of (full_entry_list sample_widget)
       else items (search_items sample_widget ?nbsp)
            = map item_of (filter (\<lambda>e. str_in (str_lower (str_strip ?nbsp))
                (str_lower (name e))) (full_entry_list sample_widget))"
    using t2 by blast
  then have d: "items (search_items sample_widget ?nbsp) = map item_of (take 2 sample_entries)"
    by (simp add: str_strip_samples str_lower_samples f)
  show ?thesis using a b c d by blast
qed

section \<open>The paste collision policy\<close>

lemma digit_val_nth: "k < 10 \<Longrightarrow> digit_val (''0123456789'' ! k) = k"
proof -
  assume "k < 10"
  then have "k \<in> {0, 1, 2, 3, 4, 5, 6, 7, 8, 9}" by auto
  then show ?thesis by (auto simp: digit_val_def)
qed

lemma dec_value_snoc: "dec_value (s @ [c]) = 10 * dec_value s + digit_val c"
  by (simp add: dec_value_def)

lemma dec_value_str_nat: "dec_value (str_nat n) = n"
proof (induction n rule: str_nat.induct)
  case (1 n)
  show ?case
  proof (cases "n < 10")
    case True
    then show ?thesis
      by (simp add: str_nat.simps [of n] dec_value_def digit_val_nth)
  next
    case False
    then have "dec_value (str_nat n) = 10 * dec_value (str_nat (n div 10)) + n mod 10"
      by (simp add: str_nat.simps [of n] dec_value_snoc digit_val_nth)
    then show ?thesis using 1 False by simp
  qed
qed

lemma str_nat_inj: "str_nat i = str_nat j \<Longrightarrow> i = j"
  by (metis dec_value_str_nat)

lemma copy_name_inj: "copy_name base ext i = copy_name base ext j \<Longrightarrow> i = j"
  by (simp add: copy_name_def str_nat_inj)

lemma unique_path_loop_finds:
  assumes "i \<le> N"
    and "\<forall>j. i \<le> j \<and> j < N \<longrightarrow> ex (copy_name base ext j)"
    and "\<not> ex (copy_name base ext N)"
  shows "unique_path_loop ex base ext i = Some (copy_name base ext N)"
  using assms
proof (induction "N - i" arbitrary: i)
  case 0
  then have "i = N" by simp
  then show ?case using "0.prems"(3) by (simp add: unique_path_loop.simps [of ex base ext N])
next
  case (Suc d)
  then have lt: "i < N" by simp
  then have here: "ex (copy_name base ext i)" using Suc.prems(2) by simp
  have "unique_path_loop ex base ext (i + 1) = Some (copy_name base ext N)"
    using Suc.hyps(1) [of "i + 1"] Suc.hyps(2) Suc.prems lt by simp
  then show ?case using here by (simp add: unique_path_loop.simps [of ex base ext i])
qed

lemma unique_path_least:
  assumes "ex dest" and "0 < N"
    and "\<forall>j. 0 < j \<and> j < N \<longrightarrow> ex (copy_name (fst (splitext dest)) (snd (splitext dest)) j)"
    and "\<not> ex (copy_name (fst (splitext dest)) (snd (splitext dest)) N)"
  shows "unique_path ex dest
         = Some (fst (splitext dest) @ '' - Copy'' @ str_nat N @ snd (splitext dest))"
proof -
  have "unique_path_loop ex (fst (splitext dest)) (snd (splitext dest)) 1
        = Some (copy_name (fst (splitext dest)) (snd (splitext dest)) N)"
    using assms by (intro unique_path_loop_finds) auto
  then show ?thesis using assms(1) by (simp add: unique_path_def copy_name_def)
qed

lemma free_copy_name:
  assumes "finite {p. ex p}"
  shows "\<exists>N. 0 < N \<and> \<not> ex (copy_name base ext N)"
proof (rule ccontr)
  assume "\<not> (\<exists>N. 0 < N \<and> \<not> ex (copy_name base ext N))"
  then have "range (\<lambda>i. copy_name base ext (Suc i)) \<subseteq> {p. ex p}" by auto
  then have "finite (range (\<lambda>i. copy_name base ext (Suc i)))"
    using assms finite_subset by blast
  moreover have "inj (\<lambda>i. copy_name base ext (Suc i))"
    by (rule injI) (auto dest: copy_name_inj)
  ultimately have "finite (UNIV :: nat set)" by (rule finite_imageD)
  then show False by simp
qed

lemma unique_path_returns:
  assumes "finite {p. ex p}"
  shows "\<exists>y. unique_path ex dest = Some y \<and> \<not> ex y"
proof (cases "ex dest")
  case False
  then show ?thesis by (simp add: unique_path_def)
next
  case True
  let ?P = "\<lambda>N. 0 < N \<and> \<not> ex (copy_name (fst (splitext dest)) (snd (splitext dest)) N)"
  from free_copy_name [OF assms] have "\<exists>N. ?P N" by blast
  then obtain N where N: "?P N" "\<forall>m<N. \<not> ?P m"
    using exists_least_iff [of ?P] by blast
  then have "unique_path ex dest
         = Some (fst (splitext dest) @ '' - Copy'' @ str_nat N @ snd (splitext dest))"
    using True by (intro unique_path_least) auto
  then show ?thesis using N(1) by (simp add: copy_name_def)
qed

lemma splitext_append: "fst (splitext p) @ snd (splitext p) = p"
  by (simp add: splitext_def Let_def)

lemma splitext_note: "splitext ''/home/u/docs/note.txt'' = (''/home/u/docs/note'', ''.txt'')"
  by (simp add: splitext_def rfind_def Let_def)


lemma paste_item_unique:
  assumes "clipboard_path s = Some src" and "src \<noteq> []" and "exists fs src"
    and "unique_path (exists fs) (path_join (current_path s) (basename src)) = Some n"
  shows "\<exists>s' rest. paste_item fs os s
           = Some (s', Os (if isdir fs src then Copytree src n else Copy2 src n) # rest)"
  using assms by (auto simp: paste_item_def Let_def split: option.splits)

text \<open>
  C4. When the clipboard holds an existing source and the destination
  \<open>join(current_path, basename(src))\<close> exists, and N is the least positive number for
  which the destination with \<open>'' - Copy''\<close> and N put before its extension does not
  exist, then \<open>unique_path\<close> returns that name and \<open>paste_item\<close> copies the source to
  it. Base and extension are the two parts of the destination, and N is printed in
  decimal. On a file system with finitely many paths \<open>unique_path\<close> always returns,
  with a path that does not exist.
\<close>

theorem paste_collision_name:
  assumes "clipboard_path s = Some src" and "src \<noteq> []" and "exists fs src"
    and "dest = path_join (current_path s) (basename src)"
    and "exists fs dest"
    and "0 < N"
    and "\<forall>j. 0 < j \<and> j < N
           \<longrightarrow> exists fs (copy_name (fst (splitext dest)) (snd (splitext dest)) j)"
    and "\<not> exists fs (copy_name (fst (splitext dest)) (snd (splitext dest)) N)"
  shows "unique_path (exists fs) dest
           = Some (fst (splitext dest) @ '' - Copy'' @ str_nat N @ snd (splitext dest))
       \<and> (\<exists>s' rest. paste_item fs os s
             = Some (s', Os (if isdir fs src
                             then Copytree src (fst (splitext dest) @ '' - Copy'' @ str_nat N
                                                @ snd (splitext dest))
                             else Copy2 src (fst (splitext dest) @ '' - Copy'' @ str_nat N
                                             @ snd (splitext dest))) # rest))
       \<and> fst (splitext dest) @ snd (splitext dest) = dest
       \<and> dec_value (str_nat N) = N
       \<and> (finite {p. path_exists p}
            \<longrightarrow> (\<exists>y. unique_path path_exists path = Some y \<and> \<not> path_exists y))"
proof -
  have u: "unique_path (exists fs) dest
           = Some (fst (splitext dest) @ '' - Copy'' @ str_nat N @ snd (splitext dest))"
    using assms(5-8) by (rule unique_path_least)
  have p: "\<exists>s' rest. paste_item fs os s
             = Some (s', Os (if isdir fs src
                             then Copytree src (fst (splitext dest) @ '' - Copy'' @ str_nat N
                                                @ snd (splitext dest))
                             else Copy2 src (fst (splitext dest) @ '' - Copy'' @ str_nat N
                                             @ snd (splitext dest))) # rest)"
    using assms(1-3) u unfolding assms(4) by (rule paste_item_unique)
  show ?thesis
    using u p splitext_append [of dest] dec_value_str_nat [of N]
      unique_path_returns [of path_exists path]
    by blast
qed

lemma paste_sample_facts:
  "clipboard_path paste_widget = Some ''/home/u/docs/note.txt''"
  "path_join (current_path paste_widget) (basename ''/home/u/docs/note.txt'')
     = ''/home/u/docs/note.txt''"
  "copy_name ''/home/u/docs/note'' ''.txt'' 1 = ''/home/u/docs/note - Copy1.txt''"
  "copy_name ''/home/u/docs/note'' ''.txt'' (Suc 0) = ''/home/u/docs/note - Copy1.txt''"
  "copy_name ''/home/u/docs/note'' ''.txt'' 2 = ''/home/u/docs/note - Copy2.txt''"
  by (simp_all add: paste_widget_def new_filey_def path_join_def basename_def rfind_def
      copy_name_def)

theorem paste_collision_name_witness:
  "exists paste_fs ''/home/u/docs/note.txt''
   \<and> (\<exists>s' rest. paste_item paste_fs os_succeeds paste_widget
         = Some (s', Os (Copy2 ''/home/u/docs/note.txt'' ''/home/u/docs/note - Copy1.txt'')
                   # rest))
   \<and> (\<exists>s' rest. paste_item (copied paste_fs ''/home/u/docs/note - Copy1.txt'') os_succeeds
                   paste_widget
         = Some (s', Os (Copy2 ''/home/u/docs/note.txt'' ''/home/u/docs/note - Copy2.txt'')
                   # rest))"
proof -
  let ?src = "''/home/u/docs/note.txt''"
  let ?fs2 = "copied paste_fs ''/home/u/docs/note - Copy1.txt''"
  have c: "clipboard_path paste_widget = Some ?src" "?src \<noteq> []"
    "?src = path_join (current_path paste_widget) (basename ?src)"
    by (simp_all add: paste_sample_facts)
  have e: "exists paste_fs ?src" by (simp add: paste_fs_def)
  have b1: "\<forall>j. 0 < j \<and> j < (1::nat)
              \<longrightarrow> exists paste_fs (copy_name (fst (splitext ?src)) (snd (splitext ?src)) j)"
    by auto
  have f1: "\<not> exists paste_fs (copy_name (fst (splitext ?src)) (snd (splitext ?src)) 1)"
    by (simp add: splitext_note paste_sample_facts paste_fs_def)
  have first: "\<exists>s' rest. paste_item paste_fs os_succeeds paste_widget
         = Some (s', Os (Copy2 ?src ''/home/u/docs/note - Copy1.txt'') # rest)"
    using paste_collision_name [OF c(1) c(2) e c(3) e zero_less_one b1 f1, of os_succeeds]
    by (simp add: splitext_note paste_fs_def)
  have e2: "exists ?fs2 ?src" by (simp add: paste_fs_def copied_def)
  have b2: "\<forall>j. 0 < j \<and> j < (2::nat)
              \<longrightarrow> exists ?fs2 (copy_name (fst (splitext ?src)) (snd (splitext ?src)) j)"
  proof (intro allI impI)
    fix j :: nat
    assume "0 < j \<and> j < 2"
    then have "j = 1" by simp
    then show "exists ?fs2 (copy_name (fst (splitext ?src)) (snd (splitext ?src)) j)"
      by (simp add: splitext_note paste_sample_facts copied_def)
  qed
  have f2: "\<not> exists ?fs2 (copy_name (fst (splitext ?src)) (snd (splitext ?src)) 2)"
    by (simp add: splitext_note paste_sample_facts paste_fs_def copied_def)
  have two: "0 < (2::nat)" by simp
  have second: "\<exists>s' rest. paste_item ?fs2 os_succeeds paste_widget
         = Some (s', Os (Copy2 ?src ''/home/u/docs/note - Copy2.txt'') # rest)"
    using paste_collision_name [OF c(1) c(2) e2 c(3) e2 two b2 f2, of os_succeeds]
    by (simp add: splitext_note paste_fs_def copied_def)
  show ?thesis using e first second by blast
qed

lemma paste_sample_result:
  "paste_item paste_fs os_succeeds paste_widget
     = Some (load_path paste_widget ''/home/u/docs'' False False,
             [Os (Copy2 ''/home/u/docs/note.txt'' ''/home/u/docs/note - Copy1.txt'')])"
proof -
  have "\<forall>j. 0 < j \<and> j < (1::nat)
          \<longrightarrow> exists paste_fs (copy_name (fst (splitext ''/home/u/docs/note.txt''))
                 (snd (splitext ''/home/u/docs/note.txt'')) j)"
    by auto
  then have "unique_path (exists paste_fs) ''/home/u/docs/note.txt''
        = Some ''/home/u/docs/note - Copy1.txt''"
    using unique_path_least [of "exists paste_fs" "''/home/u/docs/note.txt''" 1]
    by (simp add: splitext_note paste_fs_def paste_sample_facts)
  then show ?thesis
    by (simp add: paste_item_def Let_def paste_fs_def os_succeeds_def
        paste_widget_def new_filey_def path_join_def basename_def rfind_def)
qed


section \<open>The session settings\<close>

lemma all_in_dict:
  "all_in ks (PyDict kvs) = Inr (\<forall>k\<in>set ks. map_of kvs k \<noteq> None)"
  by (induction ks) auto

lemma load_session_saved:
  "load_session (save_settings file (save_session s) Written) home
     = (case all_in theme_keys (current_theme s) of
          Inl e \<Rightarrow> Inl e
        | Inr valid \<Rightarrow>
            Inr (PyStr (current_path s), anim_duration s, anim_type s,
                 if valid then current_theme s else DEFAULT_THEMES_Dark))"
  by (simp add: load_session_def save_settings_def save_session_def load_settings_def
      dict_get_def Let_def)

lemma load_session_document:
  assumes "map_of doc ''theme'' = Some (PyDict kvs)"
  shows "load_session (Document (PyDict doc)) home
     = Inr (dict_get doc ''last_path'' (PyStr home), dict_get doc ''anim_duration'' (PyInt 200),
            dict_get doc ''anim_type'' (PyStr ''Fade''),
            if \<forall>k\<in>set theme_keys. map_of kvs k \<noteq> None
            then PyDict kvs else DEFAULT_THEMES_Dark)"
proof -
  have "doc \<noteq> []" using assms by auto
  then show ?thesis
    using assms
    by (simp add: load_session_def load_settings_def dict_get_def Let_def all_in_dict)
qed

lemma theme_to_stylesheet_valid:
  assumes "\<forall>k\<in>set theme_keys. map_of kvs k \<noteq> None"
  shows "\<exists>sheet. theme_to_stylesheet (PyDict kvs) = Inr sheet"
  using assms by (auto simp: theme_to_stylesheet_def theme_keys_def)

text \<open>
  C9. When the theme of the widget is a dictionary with the five keys, writing the
  session and loading it again gives back the path, the two animation settings and the
  same theme, and \<open>Filey.__init__\<close> succeeds with them. When the theme of a settings
  document is a dictionary that lacks one of the five keys, the loaded theme is
  \<open>DEFAULT_THEMES["Dark"]\<close>, whatever the other keys hold.
\<close>

theorem theme_round_trip:
  assumes "current_theme s = PyDict kvs"
    and "\<forall>k\<in>set theme_keys. map_of kvs k \<noteq> None"
  shows "load_session (save_settings file (save_session s) Written) home
           = Inr (PyStr (current_path s), anim_duration s, anim_type s, current_theme s)
       \<and> (\<exists>s'. filey_init (save_settings file (save_session s) Written) home = Inr s'
             \<and> current_theme s' = current_theme s \<and> current_path s' = current_path s
             \<and> anim_duration s' = anim_duration s \<and> anim_type s' = anim_type s)
       \<and> (map_of doc ''theme'' = Some (PyDict kvs2) \<and> k \<in> set theme_keys
            \<and> map_of kvs2 k = None
          \<longrightarrow> load_session (Document (PyDict doc)) home2
                = Inr (dict_get doc ''last_path'' (PyStr home2),
                       dict_get doc ''anim_duration'' (PyInt 200),
                       dict_get doc ''anim_type'' (PyStr ''Fade''), DEFAULT_THEMES_Dark))"
proof -
  have a: "load_session (save_settings file (save_session s) Written) home
           = Inr (PyStr (current_path s), anim_duration s, anim_type s, current_theme s)"
    using assms by (simp add: load_session_saved all_in_dict)
  obtain sheet where sh: "theme_to_stylesheet (current_theme s) = Inr sheet"
    using theme_to_stylesheet_valid [OF assms(2)] assms(1) by auto
  have b: "\<exists>s'. filey_init (save_settings file (save_session s) Written) home = Inr s'
             \<and> current_theme s' = current_theme s \<and> current_path s' = current_path s
             \<and> anim_duration s' = anim_duration s \<and> anim_type s' = anim_type s"
    by (simp add: filey_init_def a sh load_path_def new_filey_def Let_def)
  have c: "map_of doc ''theme'' = Some (PyDict kvs2) \<and> k \<in> set theme_keys
            \<and> map_of kvs2 k = None
          \<longrightarrow> load_session (Document (PyDict doc)) home2
                = Inr (dict_get doc ''last_path'' (PyStr home2),
                       dict_get doc ''anim_duration'' (PyInt 200),
                       dict_get doc ''anim_type'' (PyStr ''Fade''), DEFAULT_THEMES_Dark)"
  proof
    assume h: "map_of doc ''theme'' = Some (PyDict kvs2) \<and> k \<in> set theme_keys
            \<and> map_of kvs2 k = None"
    then have n: "(\<forall>k\<in>set theme_keys. map_of kvs2 k \<noteq> None) = False" by blast
    from h have d: "map_of doc ''theme'' = Some (PyDict kvs2)" by blast
    show "load_session (Document (PyDict doc)) home2
                = Inr (dict_get doc ''last_path'' (PyStr home2),
                       dict_get doc ''anim_duration'' (PyInt 200),
                       dict_get doc ''anim_type'' (PyStr ''Fade''), DEFAULT_THEMES_Dark)"
      unfolding load_session_document [OF d] n by simp
  qed
  show ?thesis using a b c by blast
qed

theorem theme_round_trip_witness:
  "current_theme (sample_widget\<lparr>current_theme := DEFAULT_THEMES_Light\<rparr>) = DEFAULT_THEMES_Light
   \<and> load_session (save_settings Missing
         (save_session (sample_widget\<lparr>current_theme := DEFAULT_THEMES_Light\<rparr>)) Written)
         ''/home/u''
       = Inr (PyStr ''/home/u'', PyInt 200, PyStr ''Fade'', DEFAULT_THEMES_Light)
   \<and> load_session (Document (PyDict short_theme_settings)) ''/home/u''
       = Inr (PyStr ''/home/u/docs'', PyInt 400, PyStr ''Slide'', DEFAULT_THEMES_Dark)"
proof -
  let ?s = "sample_widget\<lparr>current_theme := DEFAULT_THEMES_Light\<rparr>"
  let ?kvs = "[(''background'', PyStr ''#f0f0f0''), (''text'', PyStr ''#202020''),
               (''selected_bg'', PyStr ''#007acc''), (''hover_bg'', PyStr ''#cce4f7''),
               (''tooltip_bg'', PyStr ''#eeeeee'')]"
  let ?kvs2 = "[(''background'', PyStr ''#ffffff''), (''text'', PyStr ''#000000''),
                (''selected_bg'', PyStr ''#007acc''), (''hover_bg'', PyStr ''#cce4f7'')]"
  have t: "current_theme ?s = PyDict ?kvs" by (simp add: DEFAULT_THEMES_Light_def)
  have v: "\<forall>k\<in>set theme_keys. map_of ?kvs k \<noteq> None" by (simp add: theme_keys_def)
  have m: "map_of short_theme_settings ''theme'' = Some (PyDict ?kvs2)
           \<and> ''tooltip_bg'' \<in> set theme_keys \<and> map_of ?kvs2 ''tooltip_bg'' = None"
    by (simp add: short_theme_settings_def theme_keys_def)
  from theme_round_trip [OF t v, of Missing "''/home/u''" short_theme_settings ?kvs2
      "''tooltip_bg''" "''/home/u''"] m
  have "load_session (save_settings Missing (save_session ?s) Written) ''/home/u''
           = Inr (PyStr (current_path ?s), anim_duration ?s, anim_type ?s, current_theme ?s)"
    and "load_session (Document (PyDict short_theme_settings)) ''/home/u''
                = Inr (dict_get short_theme_settings ''last_path'' (PyStr ''/home/u''),
                       dict_get short_theme_settings ''anim_duration'' (PyInt 200),
                       dict_get short_theme_settings ''anim_type'' (PyStr ''Fade''),
                       DEFAULT_THEMES_Dark)"
    by blast+
  then show ?thesis
    by (simp add: sample_widget_def new_filey_def dict_get_def short_theme_settings_def)
qed


section \<open>The file-operation handlers\<close>

lemma create_folder_ok:
  assumes "ok" and "str_strip typed \<noteq> []"
    and "os (Mkdir (path_join (current_path s) (str_strip typed))) = None"
  shows "create_folder os s (typed, ok)
           = (load_path s (current_path s) False False,
              [Os (Mkdir (path_join (current_path s) (str_strip typed)))])"
  using assms by (simp add: create_folder_def Let_def)

lemma create_file_ok:
  assumes "ok" and "str_strip typed \<noteq> []"
    and "\<not> exists fs (path_join (current_path s) (str_strip typed))"
    and "os (CreateFile (path_join (current_path s) (str_strip typed))) = None"
  shows "create_file fs os s (typed, ok)
           = (load_path s (current_path s) False False,
              [Os (CreateFile (path_join (current_path s) (str_strip typed)))])"
  using assms by (simp add: create_file_def Let_def)

lemma delete_item_ok:
  assumes "os (if data257 it then Rmtree (data256 it) else Remove (data256 it)) = None"
  shows "delete_item os s (Some it) True
           = (load_path s (current_path s) False False,
              [Os (if data257 it then Rmtree (data256 it) else Remove (data256 it))])"
  using assms by (simp add: delete_item_def Let_def)

lemma rename_item_ok:
  assumes "ok" and "str_strip new_name \<noteq> []"
    and "\<not> exists fs (path_join (current_path s) (str_strip new_name))"
    and "os (Rename (data256 it) (path_join (current_path s) (str_strip new_name))) = None"
  shows "rename_item fs os s (Some it) (new_name, ok)
           = (load_path s (current_path s) False False,
              [Os (Rename (data256 it) (path_join (current_path s) (str_strip new_name)))])"
  using assms by (simp add: rename_item_def Let_def)

lemma paste_item_ok:
  assumes "clipboard_path s = Some src" and "src \<noteq> []" and "exists fs src"
    and "unique_path (exists fs) (path_join (current_path s) (basename src)) = Some n"
    and "os (if isdir fs src then Copytree src n else Copy2 src n) = None"
  shows "paste_item fs os s
           = Some (load_path s (current_path s) False False,
                   [Os (if isdir fs src then Copytree src n else Copy2 src n)])"
  using assms by (simp add: paste_item_def Let_def)

lemma dropEvent_reload:
  "fst (dropEvent fs os s urls target_item) = load_path s (current_path s) False True"
  by (simp add: dropEvent_def Let_def)

text \<open>
  C8, as the code has it. On its success path each of new folder, new file, delete,
  rename and paste ends with \<open>load_path(current_path, add_history=False,
  animate=False)\<close>, and a drop ends with the same call with \<open>animate=True\<close>. That
  call leaves the scan result and the rows as they are and starts a worker for the
  current path. The rows change when the worker reports: to the scan of the file
  system as it is then, at once for \<open>animate=False\<close>, through
  \<open>animate_file_list_reload\<close> for \<open>animate=True\<close>.
\<close>

theorem mutations_start_background_rescan:
  "(ok \<and> str_strip typed \<noteq> []
      \<and> os (Mkdir (path_join (current_path s) (str_strip typed))) = None
    \<longrightarrow> fst (create_folder os s (typed, ok)) = load_path s (current_path s) False False)
   \<and> (ok \<and> str_strip typed \<noteq> []
      \<and> \<not> exists fs (path_join (current_path s) (str_strip typed))
      \<and> os (CreateFile (path_join (current_path s) (str_strip typed))) = None
    \<longrightarrow> fst (create_file fs os s (typed, ok)) = load_path s (current_path s) False False)
   \<and> (os (if data257 it then Rmtree (data256 it) else Remove (data256 it)) = None
    \<longrightarrow> fst (delete_item os s (Some it) True) = load_path s (current_path s) False False)
   \<and> (ok \<and> str_strip typed \<noteq> []
      \<and> \<not> exists fs (path_join (current_path s) (str_strip typed))
      \<and> os (Rename (data256 it) (path_join (current_path s) (str_strip typed))) = None
    \<longrightarrow> fst (rename_item fs os s (Some it) (typed, ok))
        = load_path s (current_path s) False False)
   \<and> (clipboard_path s = Some src \<and> src \<noteq> [] \<and> exists fs src
      \<and> unique_path (exists fs) (path_join (current_path s) (basename src)) = Some n
      \<and> os (if isdir fs src then Copytree src n else Copy2 src n) = None
    \<longrightarrow> map_option fst (paste_item fs os s)
        = Some (load_path s (current_path s) False False))
   \<and> fst (dropEvent fs os s urls target_item) = load_path s (current_path s) False True
   \<and> load_path s (current_path s) False animate
       = s\<lparr>load_thread := Some (current_path s, animate)\<rparr>
   \<and> worker_finished fs2 (load_path s (current_path s) False False)
       = (s\<lparr>load_thread := None, full_entry_list := run fs2 (current_path s),
            items := map item_of (run fs2 (current_path s))\<rparr>, NoAnimation)
   \<and> worker_finished fs2 (load_path s (current_path s) False True)
       = animate_file_list_reload
           (s\<lparr>load_thread := None, full_entry_list := run fs2 (current_path s)\<rparr>)
           (run fs2 (current_path s))"
proof -
  have c1: "ok \<and> str_strip typed \<noteq> []
      \<and> os (Mkdir (path_join (current_path s) (str_strip typed))) = None
    \<longrightarrow> fst (create_folder os s (typed, ok)) = load_path s (current_path s) False False"
    by (simp add: create_folder_ok)
  have c2: "ok \<and> str_strip typed \<noteq> []
      \<and> \<not> exists fs (path_join (current_path s) (str_strip typed))
      \<and> os (CreateFile (path_join (current_path s) (str_strip typed))) = None
    \<longrightarrow> fst (create_file fs os s (typed, ok)) = load_path s (current_path s) False False"
    by (simp add: create_file_ok)
  have c3: "os (if data257 it then Rmtree (data256 it) else Remove (data256 it)) = None
    \<longrightarrow> fst (delete_item os s (Some it) True) = load_path s (current_path s) False False"
    by (simp add: delete_item_ok)
  have c4: "ok \<and> str_strip typed \<noteq> []
      \<and> \<not> exists fs (path_join (current_path s) (str_strip typed))
      \<and> os (Rename (data256 it) (path_join (current_path s) (str_strip typed))) = None
    \<longrightarrow> fst (rename_item fs os s (Some it) (typed, ok))
        = load_path s (current_path s) False False"
    by (simp add: rename_item_ok)
  have c5: "clipboard_path s = Some src \<and> src \<noteq> [] \<and> exists fs src
      \<and> unique_path (exists fs) (path_join (current_path s) (basename src)) = Some n
      \<and> os (if isdir fs src then Copytree src n else Copy2 src n) = None
    \<longrightarrow> map_option fst (paste_item fs os s)
        = Some (load_path s (current_path s) False False)"
    by (simp add: paste_item_ok)
  have c6: "fst (dropEvent fs os s urls target_item) = load_path s (current_path s) False True"
    by (rule dropEvent_reload)
  have c7: "load_path s (current_path s) False animate
       = s\<lparr>load_thread := Some (current_path s, animate)\<rparr>"
    by (simp add: load_path_def Let_def)
  have c8: "worker_finished fs2 (load_path s (current_path s) False False)
       = (s\<lparr>load_thread := None, full_entry_list := run fs2 (current_path s),
            items := map item_of (run fs2 (current_path s))\<rparr>, NoAnimation)"
    by (simp add: worker_finished_def load_path_def on_load_finished_def
        rebuild_file_list_def Let_def)
  have c9: "worker_finished fs2 (load_path s (current_path s) False True)
       = animate_file_list_reload
           (s\<lparr>load_thread := None, full_entry_list := run fs2 (current_path s)\<rparr>)
           (run fs2 (current_path s))"
    by (simp add: worker_finished_def load_path_def on_load_finished_def Let_def)
  show ?thesis
    by (intro conjI c1 c2 c3 c4 c5 c6 c7 c8 c9)
qed

lemma docs_widget_eq:
  "docs_widget =
     \<lparr> current_path = ''/home/u/docs'', anim_duration = PyInt 200,
       anim_type = PyStr ''Fade'', current_theme = DEFAULT_THEMES_Dark,
       history = [''/home/u/docs''], history_index = 0, clipboard_path = None,
       full_entry_list =
         [\<lparr>name = ''note.txt'', full_path = ''/home/u/docs/note.txt'', is_folder = False,
           size_text = ''12.0 B''\<rparr>],
       items =
         [\<lparr>display_name = ''note.txt (12.0 B)'', data256 = ''/home/u/docs/note.txt'',
           data257 = False\<rparr>],
       load_thread = None \<rparr>"
  by (simp add: docs_widget_def worker_finished_def on_load_finished_def
      rebuild_file_list_def load_path_def new_filey_def
      py_slice_upto_def run_def paste_fs_def path_join_def file_entry_def folder_entry_def
      item_of_def sizeof_fmt_samples Let_def)

lemma run_mkdir_fs:
  "run mkdir_fs ''/home/u/docs'' =
     [\<lparr>name = ''new'', full_path = ''/home/u/docs/new'', is_folder = True, size_text = []\<rparr>,
      \<lparr>name = ''note.txt'', full_path = ''/home/u/docs/note.txt'', is_folder = False,
        size_text = ''12.0 B''\<rparr>]"
  by (simp add: run_def mkdir_fs_def paste_fs_def path_join_def file_entry_def
      folder_entry_def sizeof_fmt_samples Let_def)

text \<open>
  The scan is not made by the handler: when \<open>create_folder\<close> returns after a
  successful \<open>mkdir\<close> of \<open>new\<close>, a worker is pending and the widget still holds and
  shows the old scan, note.txt alone, while the directory scans as new, note.txt.
\<close>

theorem rescan_not_synchronous_counterexample:
  "snd (create_folder os_succeeds docs_widget (''new'', True))
     = [Os (Mkdir ''/home/u/docs/new'')]
   \<and> load_thread (fst (create_folder os_succeeds docs_widget (''new'', True)))
       = Some (''/home/u/docs'', False)
   \<and> map name (full_entry_list (fst (create_folder os_succeeds docs_widget (''new'', True))))
       = [''note.txt'']
   \<and> map display_name (items (fst (create_folder os_succeeds docs_widget (''new'', True))))
       = [''note.txt (12.0 B)'']
   \<and> map name (run mkdir_fs ''/home/u/docs'') = [''new'', ''note.txt'']
   \<and> full_entry_list (fst (create_folder os_succeeds docs_widget (''new'', True)))
       \<noteq> run mkdir_fs ''/home/u/docs''"
  by (simp add: create_folder_def os_succeeds_def docs_widget_eq run_mkdir_fs load_path_def
      str_strip_samples path_join_def Let_def)

theorem mutations_start_background_rescan_witness:
  "os_succeeds (Mkdir (path_join (current_path docs_widget) (str_strip ''new''))) = None
   \<and> fst (create_folder os_succeeds docs_widget (''new'', True))
       = load_path docs_widget (current_path docs_widget) False False
   \<and> map name (full_entry_list (fst (worker_finished mkdir_fs
         (fst (create_folder os_succeeds docs_widget (''new'', True))))))
       = [''new'', ''note.txt'']"
proof -
  have o: "os_succeeds (Mkdir (path_join (current_path docs_widget) (str_strip ''new''))) = None"
    by (simp add: os_succeeds_def)
  have n: "str_strip ''new'' \<noteq> []"
    by (simp add: str_strip_samples)
  have c: "current_path docs_widget = ''/home/u/docs''" by (simp add: docs_widget_eq)
  from mutations_start_background_rescan
    [of True "''new''" os_succeeds docs_widget paste_fs undefined undefined undefined
        undefined undefined undefined mkdir_fs] o n
  have a: "fst (create_folder os_succeeds docs_widget (''new'', True))
       = load_path docs_widget (current_path docs_widget) False False"
    and b: "worker_finished mkdir_fs (load_path docs_widget (current_path docs_widget) False False)
       = (docs_widget\<lparr>load_thread := None,
            full_entry_list := run mkdir_fs (current_path docs_widget),
            items := map item_of (run mkdir_fs (current_path docs_widget))\<rparr>, NoAnimation)"
    by blast+
  show ?thesis using o a b by (simp add: c run_mkdir_fs)
qed

end
